theory Spec2Isabelle
  imports Main
begin

section \<open>JavaScript numbers\<close>

text \<open>
  The handler computes with JavaScript numbers. Image dimensions, offsets and counts are
  integers far below \<open>2^53\<close>, where number arithmetic is exact, so a finite number is an
  \<open>int\<close>. The three non-finite values are kept apart because they behave differently:
  \<open>Math.max()\<close> of no arguments is \<open>-Infinity\<close>, a division by zero is \<open>Infinity\<close> or
  \<open>NaN\<close>, and \<open>NaN\<close> is falsy while the infinities are truthy. Negative zero is identified
  with zero.
\<close>

datatype jsnum = Num int | NaN | PosInfinity | NegInfinity

fun truthy :: "jsnum \<Rightarrow> bool" where
  "truthy (Num n) = (n \<noteq> 0)"
| "truthy NaN = False"
| "truthy PosInfinity = True"
| "truthy NegInfinity = True"

text \<open>\<open>Math.max(...xs)\<close> over a list of integers.\<close>

fun Math_max :: "int list \<Rightarrow> jsnum" where
  "Math_max [] = NegInfinity"
| "Math_max (x # xs) = Num (fold max xs x)"

text \<open>The sign of an infinity after multiplication by a finite number.\<close>

fun inf_times :: "bool \<Rightarrow> int \<Rightarrow> jsnum" where
  "inf_times pos n =
     (if n = 0 then NaN
      else if (0 < n) = pos then PosInfinity else NegInfinity)"

text \<open>The operator \<open>*\<close>.\<close>

fun js_times :: "jsnum \<Rightarrow> jsnum \<Rightarrow> jsnum" where
  "js_times (Num a) (Num b) = Num (a * b)"
| "js_times NaN _ = NaN"
| "js_times _ NaN = NaN"
| "js_times PosInfinity (Num b) = inf_times True b"
| "js_times NegInfinity (Num b) = inf_times False b"
| "js_times (Num a) PosInfinity = inf_times True a"
| "js_times (Num a) NegInfinity = inf_times False a"
| "js_times PosInfinity PosInfinity = PosInfinity"
| "js_times NegInfinity NegInfinity = PosInfinity"
| "js_times PosInfinity NegInfinity = NegInfinity"
| "js_times NegInfinity PosInfinity = NegInfinity"

text \<open>\<open>Math.floor(a / b)\<close> for integers \<open>a\<close> and \<open>b\<close>: the floor of the exact quotient.\<close>

definition js_floor_div :: "int \<Rightarrow> int \<Rightarrow> jsnum" where
  "js_floor_div a b =
     (if b = 0 then (if a = 0 then NaN else if 0 < a then PosInfinity else NegInfinity)
      else Num (a div b))"

text \<open>
  The operator \<open>%\<close> for integers: the remainder of the truncating division, which has the
  sign of the dividend; \<open>a % 0\<close> is \<open>NaN\<close>.
\<close>

definition js_rem :: "int \<Rightarrow> int \<Rightarrow> jsnum" where
  "js_rem a b = (if b = 0 then NaN else Num (sgn a * (\<bar>a\<bar> mod \<bar>b\<bar>)))"

section \<open>parseInt\<close>

text \<open>
  \<open>parseInt(string)\<close> without a radix: leading white space is skipped, then an optional
  sign, then an optional \<open>0x\<close> or \<open>0X\<close> that selects radix 16, then the longest run of
  digits of the radix. No digit at all gives \<open>NaN\<close>, here \<open>None\<close>. The value of the
  digits is exact; JavaScript rounds it to a double, which is the same number for values
  below \<open>2^53\<close>.

  Strings are byte strings in UTF-8. The white space that is skipped is that of the
  language: the ASCII characters tab, line feed, vertical tab, form feed, carriage return
  and space, the no-break space U+00A0 (bytes C2 A0), and the three-byte characters
  U+1680, U+2000 to U+200A, U+2028, U+2029, U+202F, U+205F, U+3000 and U+FEFF.
\<close>

definition is_space1 :: "char \<Rightarrow> bool" where
  "is_space1 a = ((of_char a :: nat) \<in> set [9, 10, 11, 12, 13, 32])"

definition is_space2 :: "char \<Rightarrow> char \<Rightarrow> bool" where
  "is_space2 a b = ((of_char a :: nat) = 194 \<and> (of_char b :: nat) = 160)"

definition is_space3 :: "char \<Rightarrow> char \<Rightarrow> char \<Rightarrow> bool" where
  "is_space3 a b c =
     (let x = (of_char a :: nat); y = (of_char b :: nat); z = (of_char c :: nat) in
      (x = 225 \<and> y = 154 \<and> z = 128)
      \<or> (x = 226 \<and> y = 128 \<and> ((128 \<le> z \<and> z \<le> 138) \<or> z = 168 \<or> z = 169 \<or> z = 175))
      \<or> (x = 226 \<and> y = 129 \<and> z = 159)
      \<or> (x = 227 \<and> y = 128 \<and> z = 128)
      \<or> (x = 239 \<and> y = 187 \<and> z = 191))"

fun skip_white_space :: "string \<Rightarrow> string" where
  "skip_white_space (a # b # c # rest) =
     (if is_space1 a then skip_white_space (b # c # rest)
      else if is_space2 a b then skip_white_space (c # rest)
      else if is_space3 a b c then skip_white_space rest
      else a # b # c # rest)"
| "skip_white_space [a, b] =
     (if is_space1 a then skip_white_space [b]
      else if is_space2 a b then []
      else [a, b])"
| "skip_white_space [a] = (if is_space1 a then [] else [a])"
| "skip_white_space [] = []"

definition digit_value :: "char \<Rightarrow> nat option" where
  "digit_value c =
     (let n = (of_char c :: nat) in
      if 48 \<le> n \<and> n \<le> 57 then Some (n - 48)
      else if 97 \<le> n \<and> n \<le> 122 then Some (n - 87)
      else if 65 \<le> n \<and> n \<le> 90 then Some (n - 55)
      else None)"

definition radix_digit :: "nat \<Rightarrow> char \<Rightarrow> nat option" where
  "radix_digit R c =
     (case digit_value c of
        Some v \<Rightarrow> (if v < R then Some v else None)
      | None \<Rightarrow> None)"

fun strip_sign :: "string \<Rightarrow> int \<times> string" where
  "strip_sign [] = (1, [])"
| "strip_sign (c # rest) =
     (if c = CHR ''-'' then (- 1, rest)
      else if c = CHR ''+'' then (1, rest)
      else (1, c # rest))"

fun strip_hex_prefix :: "string \<Rightarrow> nat \<times> string" where
  "strip_hex_prefix (c0 # c1 # rest) =
     (if c0 = CHR ''0'' \<and> (c1 = CHR ''x'' \<or> c1 = CHR ''X'') then (16, rest)
      else (10, c0 # c1 # rest))"
| "strip_hex_prefix s = (10, s)"

definition digits_value :: "nat \<Rightarrow> string \<Rightarrow> nat" where
  "digits_value R Z =
     foldl (\<lambda>acc c. acc * R + (case radix_digit R c of Some v \<Rightarrow> v | None \<Rightarrow> 0)) 0 Z"

definition parseInt :: "string \<Rightarrow> int option" where
  "parseInt s =
     (let (sign, s2) = strip_sign (skip_white_space s);
          (R, s3) = strip_hex_prefix s2;
          Z = takeWhile (\<lambda>c. radix_digit R c \<noteq> None) s3
      in if Z = [] then None else Some (sign * int (digits_value R Z)))"

text \<open>\<open>parseInt(...) || d\<close>: \<open>NaN\<close> and 0 are falsy.\<close>

definition or_default :: "int option \<Rightarrow> int \<Rightarrow> int" where
  "or_default n d = (case n of None \<Rightarrow> d | Some v \<Rightarrow> (if v = 0 then d else v))"

text \<open>A parsed number as a JavaScript number.\<close>

fun parsed :: "int option \<Rightarrow> jsnum" where
  "parsed None = NaN"
| "parsed (Some n) = Num n"

section \<open>Form data\<close>

text \<open>
  A decoded image is known to the layout code by its width and height only. An uploaded
  file is represented by the width and height stored in its header and by its embedded
  orientation tag, the values 1 to 8 of the EXIF standard (1 when the file has none); the
  pixel data and the file format are outside the model.
\<close>

record dims =
  width :: int
  height :: int

record upload =
  stored :: dims
  orientation :: nat

datatype form_value = Text string | FileVal upload

type_synonym form_data = "(string \<times> form_value) list"

text \<open>\<open>formData.get(name)\<close>: the first value stored under the name, or \<open>null\<close>.\<close>

fun formData_get :: "form_data \<Rightarrow> string \<Rightarrow> form_value option" where
  "formData_get [] name = None"
| "formData_get ((k, v) # rest) name = (if k = name then Some v else formData_get rest name)"

text \<open>
  The value of a field when a string is expected from it: \<open>String(null)\<close> is \<open>"null"\<close>
  and a file prints as \<open>"[object File]"\<close>.
\<close>

fun to_string :: "form_value option \<Rightarrow> string" where
  "to_string None = ''null''"
| "to_string (Some (Text s)) = s"
| "to_string (Some (FileVal f)) = ''[object File]''"

text \<open>Truthiness of a field: \<open>null\<close> and the empty string are falsy.\<close>

fun truthy_field :: "form_value option \<Rightarrow> bool" where
  "truthy_field None = False"
| "truthy_field (Some (Text s)) = (s \<noteq> [])"
| "truthy_field (Some (FileVal f)) = True"

section \<open>Layout on the server (route.ts)\<close>

record canvas =
  canvasWidth :: jsnum
  canvasHeight :: jsnum

text \<open>An entry of \<open>compositeOps\<close>; the input buffer is represented by its image's dimensions.\<close>

record composite_op =
  op_input :: dims
  op_left :: jsnum
  op_top :: jsnum

text \<open>\<open>POST\<close>, "Calculate canvas dimensions".\<close>

definition POST_canvas :: "form_value option \<Rightarrow> int \<Rightarrow> int \<Rightarrow> dims list \<Rightarrow> canvas" where
  "POST_canvas alignmentMode gridRows gridCols processedImages =
     (if alignmentMode = Some (Text ''horizontal'') then
        \<lparr>canvasWidth = Num (foldl (\<lambda>sum img. sum + width img) 0 processedImages),
         canvasHeight = Math_max (map height processedImages)\<rparr>
      else if alignmentMode = Some (Text ''vertical'') then
        \<lparr>canvasWidth = Math_max (map width processedImages),
         canvasHeight = Num (foldl (\<lambda>sum img. sum + height img) 0 processedImages)\<rparr>
      else if alignmentMode = Some (Text ''grid'') then
        (let cellWidth = Math_max (map width processedImages);
             cellHeight = Math_max (map height processedImages)
         in \<lparr>canvasWidth = js_times cellWidth (Num gridCols),
             canvasHeight = js_times cellHeight (Num gridRows)\<rparr>)
      else \<lparr>canvasWidth = Num 0, canvasHeight = Num 0\<rparr>)"

text \<open>The loop of the horizontal branch, with the running \<open>xOffset\<close>.\<close>

fun horizontal_ops :: "int \<Rightarrow> dims list \<Rightarrow> composite_op list" where
  "horizontal_ops xOffset [] = []"
| "horizontal_ops xOffset (img # rest) =
     \<lparr>op_input = img, op_left = Num xOffset, op_top = Num 0\<rparr>
       # horizontal_ops (xOffset + width img) rest"

text \<open>The loop of the vertical branch, with the running \<open>yOffset\<close>.\<close>

fun vertical_ops :: "int \<Rightarrow> dims list \<Rightarrow> composite_op list" where
  "vertical_ops yOffset [] = []"
| "vertical_ops yOffset (img # rest) =
     \<lparr>op_input = img, op_left = Num 0, op_top = Num yOffset\<rparr>
       # vertical_ops (yOffset + height img) rest"

text \<open>The \<open>forEach\<close> of the grid branch, with the index of the current image.\<close>

fun grid_ops :: "int \<Rightarrow> jsnum \<Rightarrow> jsnum \<Rightarrow> nat \<Rightarrow> dims list \<Rightarrow> composite_op list" where
  "grid_ops gridCols cellWidth cellHeight index [] = []"
| "grid_ops gridCols cellWidth cellHeight index (img # rest) =
     (let row = js_floor_div (int index) gridCols;
          col = js_rem (int index) gridCols
      in \<lparr>op_input = img, op_left = js_times col cellWidth, op_top = js_times row cellHeight\<rparr>)
       # grid_ops gridCols cellWidth cellHeight (Suc index) rest"

text \<open>\<open>POST\<close>, "Prepare composite operations".\<close>

definition POST_compositeOps ::
  "form_value option \<Rightarrow> int \<Rightarrow> int \<Rightarrow> dims list \<Rightarrow> composite_op list" where
  "POST_compositeOps alignmentMode gridRows gridCols processedImages =
     (if alignmentMode = Some (Text ''horizontal'') then horizontal_ops 0 processedImages
      else if alignmentMode = Some (Text ''vertical'') then vertical_ops 0 processedImages
      else if alignmentMode = Some (Text ''grid'') then
        (let cellWidth = Math_max (map width processedImages);
             cellHeight = Math_max (map height processedImages)
         in grid_ops gridCols cellWidth cellHeight 0 processedImages)
      else [])"

section \<open>The image library\<close>

text \<open>
  Decoding, rotating, resizing, compositing and encoding are done by the image library
  sharp, which is not part of the repository. The handler's own code decides which calls
  are made, on which object, in which order and with which arguments; what the calls do
  is modelled in this section: the decoder, the argument checks and the resize from the
  specification, and the laziness of a pipeline from the library's documentation.
\<close>

text \<open>
  Modelled from the spec: the decoder of the image library is missing. By section 3 of the
  specification a decoded image has a positive integer width and height, and by section 7
  a buffer that is not a decodable image fails the whole request. A file whose stored
  dimensions are not both positive stands for such a buffer.
\<close>

definition decodable :: "upload \<Rightarrow> bool" where
  "decodable buffer = (0 < width (stored buffer) \<and> 0 < height (stored buffer))"

text \<open>
  Modelled from the spec: the library's rotation by the orientation tag is missing. By
  section 6 of the specification the image is turned as its embedded orientation metadata
  says. Of the eight values of the tag, 5 to 8 stand for a quarter turn, which exchanges
  width and height; the others leave them as stored. These are the natural dimensions of
  the image.
\<close>

definition oriented :: "upload \<Rightarrow> dims" where
  "oriented buffer =
     (if 5 \<le> orientation buffer \<and> orientation buffer \<le> 8
      then \<lparr>width = height (stored buffer), height = width (stored buffer)\<rparr>
      else stored buffer)"

text \<open>
  Modelled from the spec: the argument check of the library's \<open>resize\<close> is missing. By
  section 3 of the specification a requested width or height is a positive integer or is
  not given; \<open>undefined\<close> and \<open>null\<close>, here \<open>None\<close>, mean not given. The result is
  \<open>None\<close> when the call throws.
\<close>

fun resize_arg :: "jsnum option \<Rightarrow> int option option" where
  "resize_arg None = Some None"
| "resize_arg (Some (Num n)) = (if 0 < n then Some (Some n) else None)"
| "resize_arg (Some NaN) = None"
| "resize_arg (Some PosInfinity) = None"
| "resize_arg (Some NegInfinity) = None"

text \<open>
  Modelled from the spec: the library's rounding of a scaled length to whole pixels is
  missing. Section 8 of the specification bounds the rounding error by one pixel; the
  model takes the nearest integer to \<open>a / b\<close> for positive \<open>b\<close>, halves rounded up.
\<close>

definition round_div :: "int \<Rightarrow> int \<Rightarrow> int" where
  "round_div a b = (2 * a + b) div (2 * b)"

text \<open>
  Modelled from the spec: the library's proportional scaling is missing. By section 4.2 of
  the specification the free axis scales proportionally when the other axis goes from
  \<open>natural\<close> to \<open>target\<close>, and the result is a positive integer: the proportional
  length is rounded to a pixel and is at least one pixel.
\<close>

definition scaled :: "int \<Rightarrow> int \<Rightarrow> int \<Rightarrow> int" where
  "scaled free target natural = max 1 (round_div (free * target) natural)"

text \<open>
  Modelled from the spec: the library's \<open>resize\<close> with \<open>fit: 'inside'\<close> is missing. By
  section 4.2 of the specification the image is scaled to fit entirely inside the
  requested box with its aspect ratio preserved; one given dimension is a single-axis
  scale that matches that axis exactly and scales the other proportionally; two given
  dimensions are a bounding-box fit, which matches the tighter axis; with
  \<open>withoutEnlargement\<close> an image that already fits is left at its natural size; and the
  result has positive integer dimensions.
\<close>

fun fit_inside :: "int option \<Rightarrow> int option \<Rightarrow> bool \<Rightarrow> dims \<Rightarrow> dims" where
  "fit_inside None None withoutEnlargement d = d"
| "fit_inside (Some w) None withoutEnlargement d =
     (if withoutEnlargement \<and> width d \<le> w then d
      else \<lparr>width = w, height = scaled (height d) w (width d)\<rparr>)"
| "fit_inside None (Some h) withoutEnlargement d =
     (if withoutEnlargement \<and> height d \<le> h then d
      else \<lparr>width = scaled (width d) h (height d), height = h\<rparr>)"
| "fit_inside (Some w) (Some h) withoutEnlargement d =
     (if withoutEnlargement \<and> width d \<le> w \<and> height d \<le> h then d
      else if w * height d \<le> h * width d
      then \<lparr>width = w, height = scaled (height d) w (width d)\<rparr>
      else \<lparr>width = scaled (width d) h (height d), height = h\<rparr>)"

text \<open>
  Modelled from the spec: what the library's \<open>resize(width, height, options)\<close> does to
  the dimensions of an image is missing. It checks both arguments and then fits the image
  inside the requested box.
\<close>

definition resize_result :: "jsnum option \<Rightarrow> jsnum option \<Rightarrow> bool \<Rightarrow> dims \<Rightarrow> dims option" where
  "resize_result w h withoutEnlargement d =
     (case resize_arg w of
        None \<Rightarrow> None
      | Some w' \<Rightarrow>
          (case resize_arg h of
             None \<Rightarrow> None
           | Some h' \<Rightarrow> Some (fit_inside w' h' withoutEnlargement d)))"

text \<open>
  A pipeline of the library is lazy. \<open>sharp(buffer)\<close> wraps the input; \<open>rotate()\<close>,
  \<open>resize(...)\<close> and \<open>png()\<close> queue an operation on the pipeline and do nothing else;
  \<open>toBuffer()\<close> decodes the input, applies the queued operations and encodes the result.
  The handler queues the rotation first, then the resize, then the encoding, which is
  also the order in which the library applies them.
\<close>

datatype sharp_op = AutoOrient | Resize "jsnum option" "jsnum option" bool | ToPng

record pipeline =
  pipe_input :: upload
  pipe_queued :: "sharp_op list"

definition sharp :: "upload \<Rightarrow> pipeline" where
  "sharp buffer = \<lparr>pipe_input = buffer, pipe_queued = []\<rparr>"

definition sharp_rotate :: "pipeline \<Rightarrow> pipeline" where
  "sharp_rotate img = img\<lparr>pipe_queued := pipe_queued img @ [AutoOrient]\<rparr>"

definition sharp_resize :: "jsnum option \<Rightarrow> jsnum option \<Rightarrow> bool \<Rightarrow> pipeline \<Rightarrow> pipeline" where
  "sharp_resize w h withoutEnlargement img =
     img\<lparr>pipe_queued := pipe_queued img @ [Resize w h withoutEnlargement]\<rparr>"

definition sharp_png :: "pipeline \<Rightarrow> pipeline" where
  "sharp_png img = img\<lparr>pipe_queued := pipe_queued img @ [ToPng]\<rparr>"

text \<open>
  The library's \<open>metadata()\<close> is not in the repository; it is modelled from the library's
  documentation: it reads the header of the input of the pipeline, it does not take into
  account the operations queued on the pipeline, such as a resize or a rotation, and its
  width and height do not take the orientation tag into account. It fails on an input
  that is not a decodable image.
\<close>

definition sharp_metadata :: "pipeline \<Rightarrow> dims option" where
  "sharp_metadata img =
     (if decodable (pipe_input img) then Some (stored (pipe_input img)) else None)"

text \<open>
  One queued operation applied to a decoded image. The rotation turns the image and
  clears the tag; the resize may throw; the encoding changes neither the dimensions nor
  the tag.
\<close>

fun apply_op :: "sharp_op \<Rightarrow> upload \<Rightarrow> upload option" where
  "apply_op AutoOrient buffer = Some \<lparr>stored = oriented buffer, orientation = 1\<rparr>"
| "apply_op (Resize w h withoutEnlargement) buffer =
     (case resize_result w h withoutEnlargement (stored buffer) of
        None \<Rightarrow> None
      | Some d \<Rightarrow> Some (buffer\<lparr>stored := d\<rparr>))"
| "apply_op ToPng buffer = Some buffer"

fun render :: "sharp_op list \<Rightarrow> upload \<Rightarrow> upload option" where
  "render [] buffer = Some buffer"
| "render (operation # rest) buffer =
     (case apply_op operation buffer of
        None \<Rightarrow> None
      | Some buffer' \<Rightarrow> render rest buffer')"

text \<open>\<open>toBuffer()\<close>: the rendered image as a new buffer, \<open>None\<close> when a step throws.\<close>

definition sharp_toBuffer :: "pipeline \<Rightarrow> upload option" where
  "sharp_toBuffer img =
     (if decodable (pipe_input img) then render (pipe_queued img) (pipe_input img)
      else None)"

text \<open>
  Modelled from the spec: the library's check of a new canvas is missing. By section 3 of
  the specification a canvas has a positive integer width and height.
\<close>

fun sharp_create_ok :: "jsnum \<Rightarrow> jsnum \<Rightarrow> bool" where
  "sharp_create_ok (Num w) (Num h) = (0 < w \<and> 0 < h)"
| "sharp_create_ok _ _ = False"

text \<open>
  Modelled from the spec: the library's \<open>composite\<close> is missing. By section 3 of the
  specification a placement has integer offsets; compositing is taken to succeed when
  every offset is an integer.
\<close>

fun is_integer :: "jsnum \<Rightarrow> bool" where
  "is_integer (Num n) = True"
| "is_integer _ = False"

definition sharp_composite_ok :: "composite_op list \<Rightarrow> bool" where
  "sharp_composite_ok ops = list_all (\<lambda>p. is_integer (op_left p) \<and> is_integer (op_top p)) ops"

section \<open>The request handler (route.ts)\<close>

text \<open>The loop that collects the uploaded files, in the order of the form entries.\<close>

definition startsWith :: "string \<Rightarrow> string \<Rightarrow> bool" where
  "startsWith s p = (take (length p) s = p)"

fun collect_files :: "form_data \<Rightarrow> upload list" where
  "collect_files [] = []"
| "collect_files ((key, Text s) # rest) = collect_files rest"
| "collect_files ((key, FileVal f) # rest) =
     (if startsWith key ''image-'' then f # collect_files rest else collect_files rest)"

text \<open>
  The first pass on one image: \<open>sharp(buffer).rotate()\<close> and then \<open>metadata()\<close> on that
  pipeline, which has not been rendered. \<open>None\<close> when the call throws.
\<close>

definition first_pass :: "upload \<Rightarrow> dims option" where
  "first_pass buffer = sharp_metadata (sharp_rotate (sharp buffer))"

text \<open>"Determine target dimension for alignment"; \<open>undefined\<close> is \<open>None\<close>.\<close>

definition alignment_targets :: "form_value option \<Rightarrow> dims list \<Rightarrow> jsnum option \<times> jsnum option" where
  "alignment_targets alignDimension imageDimensions =
     (if alignDimension = Some (Text ''width'')
        then (Some (Math_max (map width imageDimensions)), None)
      else if alignDimension = Some (Text ''height'')
        then (None, Some (Math_max (map height imageDimensions)))
      else (None, None))"

fun truthy_opt :: "jsnum option \<Rightarrow> bool" where
  "truthy_opt None = False"
| "truthy_opt (Some n) = truthy n"

text \<open>\<open>field ? parseInt(field) : undefined\<close>.\<close>

definition requested :: "form_value option \<Rightarrow> jsnum option" where
  "requested field =
     (if truthy_field field then Some (parsed (parseInt (to_string field))) else None)"

text \<open>
  The resize call that the second pass makes on one image, if any: the requested width and
  height and the flag \<open>withoutEnlargement\<close>. The explicit resize is tested first, then the
  alignment to a width, then the alignment to a height.
\<close>

definition resize_call ::
  "form_value option \<Rightarrow> form_value option \<Rightarrow> jsnum option \<Rightarrow> jsnum option
     \<Rightarrow> (jsnum option \<times> jsnum option \<times> bool) option" where
  "resize_call resizeWidth resizeHeight targetWidth targetHeight =
     (if truthy_field resizeWidth \<or> truthy_field resizeHeight then
        (let w = requested resizeWidth;
             h = requested resizeHeight
         in Some (w, h, True))
      else if truthy_opt targetWidth then Some (targetWidth, None, False)
      else if truthy_opt targetHeight then Some (None, targetHeight, False)
      else None)"

text \<open>
  The second pass on one image: a new pipeline on the buffer, \<open>rotate()\<close>, the resize
  call if one applies, \<open>png().toBuffer()\<close>, and then \<open>metadata()\<close> on a pipeline over the
  rendered buffer. \<open>None\<close> when a call throws.
\<close>

definition process_image ::
  "form_value option \<Rightarrow> form_value option \<Rightarrow> jsnum option \<Rightarrow> jsnum option
     \<Rightarrow> upload \<Rightarrow> dims option" where
  "process_image resizeWidth resizeHeight targetWidth targetHeight buffer =
     (let rotated = sharp_rotate (sharp buffer);
          img = (case resize_call resizeWidth resizeHeight targetWidth targetHeight of
                     None \<Rightarrow> rotated
                   | Some (w, h, withoutEnlargement) \<Rightarrow>
                       sharp_resize w h withoutEnlargement rotated)
      in case sharp_toBuffer (sharp_png img) of
           None \<Rightarrow> None
         | Some processedBuffer \<Rightarrow> sharp_metadata (sharp processedBuffer))"

text \<open>
  Both passes over the files of a request: the dimensions of the processed images, or
  \<open>None\<close> when a call of either pass throws.
\<close>

definition processed_images :: "form_data \<Rightarrow> dims list option" where
  "processed_images formData =
     (let resizeWidth = formData_get formData ''resizeWidth'';
          resizeHeight = formData_get formData ''resizeHeight'';
          alignDimension = formData_get formData ''alignDimension'';
          files = collect_files formData
      in case those (map first_pass files) of
           None \<Rightarrow> None
         | Some imageDimensions \<Rightarrow>
             (let (targetWidth, targetHeight) = alignment_targets alignDimension imageDimensions
              in those (map (process_image resizeWidth resizeHeight targetWidth targetHeight)
                          files)))"

text \<open>
  What a request leaves behind: the calls made into the image library, with their
  arguments, and the response. \<open>ReadMetadata i\<close> is the first pass on image \<open>i\<close>,
  \<open>ProcessImage i\<close> the second pass on it, completed. When a call throws, the \<open>catch\<close>
  block answers with status 500: a canvas creation or a composite call that throws is
  the last event of the trace, and when the first or the second pass throws the trace
  ends with the first pass. Within one pass the images are handled independently; the
  trace lists them in input order.
\<close>

datatype event =
    ReadMetadata nat
  | ProcessImage nat
  | CreateCanvas canvas
  | Composite "composite_op list"
  | EncodePng

datatype response = Json nat string | Png canvas "composite_op list"

text \<open>\<open>parseInt(formData.get(name) as string) || 2\<close>, for \<open>gridRows\<close> and \<open>gridCols\<close>.\<close>

definition effective_grid :: "form_data \<Rightarrow> string \<Rightarrow> int" where
  "effective_grid formData name = or_default (parseInt (to_string (formData_get formData name))) 2"

definition POST :: "form_data \<Rightarrow> event list \<times> response" where
  "POST formData =
     (let alignmentMode = formData_get formData ''alignmentMode'';
          gridRows = effective_grid formData ''gridRows'';
          gridCols = effective_grid formData ''gridCols'';
          files = collect_files formData
      in if files = [] then ([], Json 400 ''No images provided'')
         else
           (let pass1 = map ReadMetadata [0..<length files]
            in case processed_images formData of
                 None \<Rightarrow> (pass1, Json 500 ''Failed to merge images'')
               | Some processedImages \<Rightarrow>
                   (let pass2 = map ProcessImage [0..<length files];
                        c = POST_canvas alignmentMode gridRows gridCols processedImages;
                        compositeOps =
                          POST_compositeOps alignmentMode gridRows gridCols processedImages
                    in if \<not> sharp_create_ok (canvasWidth c) (canvasHeight c)
                       then (pass1 @ pass2 @ [CreateCanvas c],
                             Json 500 ''Failed to merge images'')
                       else if \<not> sharp_composite_ok compositeOps
                       then (pass1 @ pass2 @ [CreateCanvas c, Composite compositeOps],
                             Json 500 ''Failed to merge images'')
                       else (pass1 @ pass2 @ [CreateCanvas c, Composite compositeOps, EncodePng],
                             Png c compositeOps))))"

section \<open>Layout in the browser (page.tsx)\<close>

datatype AlignmentMode = horizontal | vertical | grid

text \<open>The string that \<open>mergeImagesServer\<close> appends to the form for the mode.\<close>

fun mode_text :: "AlignmentMode \<Rightarrow> string" where
  "mode_text horizontal = ''horizontal''"
| "mode_text vertical = ''vertical''"
| "mode_text grid = ''grid''"

text \<open>\<open>mergeImagesClient\<close>, the size given to the canvas element.\<close>

fun mergeImagesClient_canvas :: "AlignmentMode \<Rightarrow> int \<Rightarrow> int \<Rightarrow> dims list \<Rightarrow> canvas" where
  "mergeImagesClient_canvas horizontal gridRows gridCols images =
     \<lparr>canvasWidth = Num (foldl (\<lambda>sum img. sum + width img) 0 images),
      canvasHeight = Math_max (map height images)\<rparr>"
| "mergeImagesClient_canvas vertical gridRows gridCols images =
     \<lparr>canvasWidth = Math_max (map width images),
      canvasHeight = Num (foldl (\<lambda>sum img. sum + height img) 0 images)\<rparr>"
| "mergeImagesClient_canvas grid gridRows gridCols images =
     (let cellWidth = Math_max (map width images);
          cellHeight = Math_max (map height images)
      in \<lparr>canvasWidth = js_times cellWidth (Num gridCols),
          canvasHeight = js_times cellHeight (Num gridRows)\<rparr>)"

text \<open>A call \<open>ctx.drawImage(img, dx, dy)\<close>.\<close>

record draw_call =
  drawn :: dims
  dx :: jsnum
  dy :: jsnum

fun draw_horizontal :: "int \<Rightarrow> dims list \<Rightarrow> draw_call list" where
  "draw_horizontal xOffset [] = []"
| "draw_horizontal xOffset (img # rest) =
     \<lparr>drawn = img, dx = Num xOffset, dy = Num 0\<rparr> # draw_horizontal (xOffset + width img) rest"

fun draw_vertical :: "int \<Rightarrow> dims list \<Rightarrow> draw_call list" where
  "draw_vertical yOffset [] = []"
| "draw_vertical yOffset (img # rest) =
     \<lparr>drawn = img, dx = Num 0, dy = Num yOffset\<rparr> # draw_vertical (yOffset + height img) rest"

fun draw_grid :: "int \<Rightarrow> jsnum \<Rightarrow> jsnum \<Rightarrow> nat \<Rightarrow> dims list \<Rightarrow> draw_call list" where
  "draw_grid gridCols cellWidth cellHeight index [] = []"
| "draw_grid gridCols cellWidth cellHeight index (img # rest) =
     (let row = js_floor_div (int index) gridCols;
          col = js_rem (int index) gridCols
      in \<lparr>drawn = img, dx = js_times col cellWidth, dy = js_times row cellHeight\<rparr>)
       # draw_grid gridCols cellWidth cellHeight (Suc index) rest"

text \<open>\<open>mergeImagesClient\<close>, the drawing calls.\<close>

fun mergeImagesClient_draws ::
  "AlignmentMode \<Rightarrow> int \<Rightarrow> int \<Rightarrow> dims list \<Rightarrow> draw_call list" where
  "mergeImagesClient_draws horizontal gridRows gridCols images = draw_horizontal 0 images"
| "mergeImagesClient_draws vertical gridRows gridCols images = draw_vertical 0 images"
| "mergeImagesClient_draws grid gridRows gridCols images =
     (let cellWidth = Math_max (map width images);
          cellHeight = Math_max (map height images)
      in draw_grid gridCols cellWidth cellHeight 0 images)"

section \<open>Placement within the canvas\<close>

text \<open>
  A composite operation fits a canvas when its left offset plus the width of its image does
  not exceed the canvas width, and its top offset plus the height of its image does not
  exceed the canvas height.
\<close>

fun fits :: "jsnum \<Rightarrow> int \<Rightarrow> jsnum \<Rightarrow> bool" where
  "fits (Num offset) extent (Num limit) = (offset + extent \<le> limit)"
| "fits _ extent _ = False"

definition fits_canvas :: "canvas \<Rightarrow> composite_op \<Rightarrow> bool" where
  "fits_canvas c p =
     (fits (op_left p) (width (op_input p)) (canvasWidth c)
      \<and> fits (op_top p) (height (op_input p)) (canvasHeight c))"

section \<open>Sums, maxima and running offsets\<close>

lemma reduce_plus:
  fixes f :: "'a \<Rightarrow> int"
  shows "foldl (\<lambda>sum img. sum + f img) a xs = a + sum_list (map f xs)"
  by (induction xs arbitrary: a) (simp_all add: add.assoc)

lemma Math_max_Max: "xs \<noteq> [] \<Longrightarrow> Math_max (map f xs) = Num (Max (f ` set xs))"
proof (cases xs)
  case Nil
  assume "xs \<noteq> []"
  with Nil show ?thesis by simp
next
  case (Cons y ys)
  have "fold max (map f ys) (f y) = Max (set (f y # map f ys))"
    by (rule Max.set_eq_fold [symmetric])
  with Cons show ?thesis by simp
qed

lemma length_horizontal_ops: "length (horizontal_ops x imgs) = length imgs"
  by (induction imgs arbitrary: x) simp_all

lemma nth_horizontal_ops:
  "i < length imgs \<Longrightarrow>
     horizontal_ops x imgs ! i =
       \<lparr>op_input = imgs ! i, op_left = Num (x + sum_list (map width (take i imgs))),
        op_top = Num 0\<rparr>"
proof (induction imgs arbitrary: x i)
  case Nil
  then show ?case by simp
next
  case (Cons img rest)
  show ?case
  proof (cases i)
    case 0
    then show ?thesis by simp
  next
    case (Suc j)
    with Cons.prems have "j < length rest" by simp
    from Cons.IH [OF this, of "x + width img"] Suc show ?thesis
      by (simp add: add.assoc)
  qed
qed

section \<open>Horizontal layout\<close>

text \<open>
  C1. For a non-empty list of image dimensions merged in horizontal mode, the canvas width
  is the sum of all image widths, the canvas height is the maximum of all image heights,
  there is one composite operation per image in input order, image \<open>i\<close> is placed at
  the left offset equal to the sum of the widths of images \<open>0..i-1\<close>, and every top
  offset is 0.
\<close>

theorem horizontal_layout:
  assumes "imgs \<noteq> []"
  shows "POST_canvas (Some (Text ''horizontal'')) rows cols imgs =
           \<lparr>canvasWidth = Num (sum_list (map width imgs)),
            canvasHeight = Num (Max (height ` set imgs))\<rparr>
         \<and> length (POST_compositeOps (Some (Text ''horizontal'')) rows cols imgs) = length imgs
         \<and> (\<forall>i < length imgs.
              POST_compositeOps (Some (Text ''horizontal'')) rows cols imgs ! i =
                \<lparr>op_input = imgs ! i,
                 op_left = Num (sum_list (map width (take i imgs))),
                 op_top = Num 0\<rparr>)"
  using assms
  by (simp add: POST_canvas_def POST_compositeOps_def reduce_plus Math_max_Max
      length_horizontal_ops nth_horizontal_ops)

text \<open>The scenario of the specification: images 100 x 50 and 80 x 60.\<close>

theorem horizontal_layout_witness:
  "[\<lparr>width = 100, height = 50\<rparr>, \<lparr>width = 80, height = 60\<rparr>] \<noteq> []
   \<and> POST_canvas (Some (Text ''horizontal'')) 2 2
       [\<lparr>width = 100, height = 50\<rparr>, \<lparr>width = 80, height = 60\<rparr>] =
       \<lparr>canvasWidth = Num 180, canvasHeight = Num 60\<rparr>
   \<and> POST_compositeOps (Some (Text ''horizontal'')) 2 2
       [\<lparr>width = 100, height = 50\<rparr>, \<lparr>width = 80, height = 60\<rparr>] ! 1 =
       \<lparr>op_input = \<lparr>width = 80, height = 60\<rparr>, op_left = Num 100, op_top = Num 0\<rparr>"
  using horizontal_layout [of "[\<lparr>width = 100, height = 50\<rparr>, \<lparr>width = 80, height = 60\<rparr>]" 2 2]
  by simp

section \<open>Vertical and grid loops\<close>

lemma length_vertical_ops: "length (vertical_ops y imgs) = length imgs"
  by (induction imgs arbitrary: y) simp_all

lemma nth_vertical_ops:
  "i < length imgs \<Longrightarrow>
     vertical_ops y imgs ! i =
       \<lparr>op_input = imgs ! i, op_left = Num 0,
        op_top = Num (y + sum_list (map height (take i imgs)))\<rparr>"
proof (induction imgs arbitrary: y i)
  case Nil
  then show ?case by simp
next
  case (Cons img rest)
  show ?case
  proof (cases i)
    case 0
    then show ?thesis by simp
  next
    case (Suc j)
    with Cons.prems have "j < length rest" by simp
    from Cons.IH [OF this, of "y + height img"] Suc show ?thesis
      by (simp add: add.assoc)
  qed
qed

lemma length_grid_ops: "length (grid_ops cols cw ch k imgs) = length imgs"
  by (induction imgs arbitrary: k) simp_all

lemma nth_grid_ops:
  "i < length imgs \<Longrightarrow>
     grid_ops cols cw ch k imgs ! i =
       \<lparr>op_input = imgs ! i,
        op_left = js_times (js_rem (int (k + i)) cols) cw,
        op_top = js_times (js_floor_div (int (k + i)) cols) ch\<rparr>"
proof (induction imgs arbitrary: k i)
  case Nil
  then show ?case by simp
next
  case (Cons img rest)
  show ?case
  proof (cases i)
    case 0
    then show ?thesis by simp
  next
    case (Suc j)
    with Cons.prems have "j < length rest" by simp
    from Cons.IH [OF this, of "Suc k"] Suc show ?thesis
      by simp
  qed
qed

lemma js_rem_pos: "0 < b \<Longrightarrow> js_rem (int i) b = Num (int i mod b)"
  by (cases "i = 0") (simp_all add: js_rem_def)

lemma js_floor_div_nonzero: "b \<noteq> 0 \<Longrightarrow> js_floor_div a b = Num (a div b)"
  by (simp add: js_floor_div_def)

section \<open>Grid layout\<close>

text \<open>
  C2. For a non-empty list of image dimensions merged in grid mode with a positive number
  of columns, the cell width is the maximum image width and the cell height the maximum
  image height of the batch, the canvas is cell width times columns by cell height times
  rows, there is one composite operation per image in input order, and image \<open>i\<close> is
  placed row by row at left \<open>(i mod cols) * cellWidth\<close> and top \<open>(i div cols) * cellHeight\<close>.
\<close>

theorem grid_layout:
  assumes "imgs \<noteq> []" and "0 < cols"
  shows "POST_canvas (Some (Text ''grid'')) rows cols imgs =
           \<lparr>canvasWidth = Num (Max (width ` set imgs) * cols),
            canvasHeight = Num (Max (height ` set imgs) * rows)\<rparr>
         \<and> length (POST_compositeOps (Some (Text ''grid'')) rows cols imgs) = length imgs
         \<and> (\<forall>i < length imgs.
              POST_compositeOps (Some (Text ''grid'')) rows cols imgs ! i =
                \<lparr>op_input = imgs ! i,
                 op_left = Num ((int i mod cols) * Max (width ` set imgs)),
                 op_top = Num ((int i div cols) * Max (height ` set imgs))\<rparr>)"
  using assms
  by (simp add: POST_canvas_def POST_compositeOps_def Math_max_Max
      length_grid_ops nth_grid_ops js_rem_pos js_floor_div_nonzero)

theorem grid_layout_witness:
  "[\<lparr>width = 40, height = 40\<rparr>, \<lparr>width = 40, height = 40\<rparr>, \<lparr>width = 40, height = 40\<rparr>] \<noteq> []
   \<and> (0 :: int) < 2
   \<and> POST_canvas (Some (Text ''grid'')) 2 2
       [\<lparr>width = 40, height = 40\<rparr>, \<lparr>width = 40, height = 40\<rparr>, \<lparr>width = 40, height = 40\<rparr>] =
       \<lparr>canvasWidth = Num 80, canvasHeight = Num 80\<rparr>
   \<and> POST_compositeOps (Some (Text ''grid'')) 2 2
       [\<lparr>width = 40, height = 40\<rparr>, \<lparr>width = 40, height = 40\<rparr>, \<lparr>width = 40, height = 40\<rparr>] ! 1 =
       \<lparr>op_input = \<lparr>width = 40, height = 40\<rparr>, op_left = Num 40, op_top = Num 0\<rparr>
   \<and> POST_compositeOps (Some (Text ''grid'')) 2 2
       [\<lparr>width = 40, height = 40\<rparr>, \<lparr>width = 40, height = 40\<rparr>, \<lparr>width = 40, height = 40\<rparr>] ! 2 =
       \<lparr>op_input = \<lparr>width = 40, height = 40\<rparr>, op_left = Num 0, op_top = Num 40\<rparr>"
  using grid_layout
    [of "[\<lparr>width = 40, height = 40\<rparr>, \<lparr>width = 40, height = 40\<rparr>, \<lparr>width = 40, height = 40\<rparr>]" 2 2]
  by simp

section \<open>Layout in the browser and on the server\<close>

lemma draws_horizontal:
  "map (\<lambda>d. (drawn d, dx d, dy d)) (draw_horizontal x imgs) =
   map (\<lambda>p. (op_input p, op_left p, op_top p)) (horizontal_ops x imgs)"
  by (induction imgs arbitrary: x) simp_all

lemma draws_vertical:
  "map (\<lambda>d. (drawn d, dx d, dy d)) (draw_vertical y imgs) =
   map (\<lambda>p. (op_input p, op_left p, op_top p)) (vertical_ops y imgs)"
  by (induction imgs arbitrary: y) simp_all

lemma draws_grid:
  "map (\<lambda>d. (drawn d, dx d, dy d)) (draw_grid cols cw ch k imgs) =
   map (\<lambda>p. (op_input p, op_left p, op_top p)) (grid_ops cols cw ch k imgs)"
  by (induction imgs arbitrary: k) (simp_all add: Let_def)

text \<open>
  C4. For every list of image dimensions, every layout mode and the same rows and columns,
  the canvas size and the per-image offsets computed by \<open>mergeImagesClient\<close> in the
  browser equal those computed by \<open>POST\<close> on the server for the mode string the browser
  sends.
\<close>

theorem client_server_layout:
  "mergeImagesClient_canvas m rows cols imgs = POST_canvas (Some (Text (mode_text m))) rows cols imgs
   \<and> map (\<lambda>d. (drawn d, dx d, dy d)) (mergeImagesClient_draws m rows cols imgs) =
       map (\<lambda>p. (op_input p, op_left p, op_top p))
         (POST_compositeOps (Some (Text (mode_text m))) rows cols imgs)"
  by (cases m)
    (simp_all add: POST_canvas_def POST_compositeOps_def draws_horizontal draws_vertical
      draws_grid Let_def)

section \<open>Placements inside the canvas\<close>

lemma sum_take_le:
  fixes f :: "'a \<Rightarrow> int"
  assumes "\<forall>x \<in> set xs. 0 \<le> f x"
  shows "sum_list (map f (take k xs)) \<le> sum_list (map f xs)"
proof -
  have "sum_list (map f xs) = sum_list (map f (take k xs)) + sum_list (map f (drop k xs))"
    by (metis append_take_drop_id map_append sum_list.append)
  moreover have "0 \<le> sum_list (map f (drop k xs))"
  proof (rule sum_list_nonneg)
    fix y
    assume "y \<in> set (map f (drop k xs))"
    then obtain x where "x \<in> set (drop k xs)" and "y = f x" by auto
    with assms show "0 \<le> y" by (auto dest: in_set_dropD)
  qed
  ultimately show ?thesis by simp
qed

lemma sum_take_Suc:
  fixes f :: "'a \<Rightarrow> int"
  assumes "i < length xs"
  shows "sum_list (map f (take i xs)) + f (xs ! i) = sum_list (map f (take (Suc i) xs))"
  using assms by (simp add: take_Suc_conv_app_nth)

lemma running_offset_fits:
  fixes f :: "'a \<Rightarrow> int"
  assumes "\<forall>x \<in> set xs. 0 \<le> f x" and "i < length xs"
  shows "sum_list (map f (take i xs)) + f (xs ! i) \<le> sum_list (map f xs)"
  using sum_take_le [OF assms(1), of "Suc i"] sum_take_Suc [OF assms(2), of f] by simp

lemma nth_le_Max:
  fixes f :: "'a \<Rightarrow> int"
  assumes "i < length xs"
  shows "f (xs ! i) \<le> Max (f ` set xs)"
  using assms by (simp add: Max_ge)

lemma grid_col_fits:
  fixes cw w :: int
  assumes "0 < cols" "w \<le> cw" "0 \<le> cw"
  shows "(i mod cols) * cw + w \<le> cw * cols"
proof -
  have "i mod cols \<le> cols - 1" using assms(1) by simp
  then have "(i mod cols) * cw \<le> (cols - 1) * cw"
    using assms(3) by (rule mult_right_mono)
  then show ?thesis using assms(2) by (simp add: algebra_simps)
qed

lemma grid_row_fits:
  fixes ch h :: int
  assumes "0 < cols" "i < rows * cols" "h \<le> ch" "0 \<le> ch"
  shows "(i div cols) * ch + h \<le> ch * rows"
proof -
  have "i div cols < rows"
  proof (rule ccontr)
    assume "\<not> i div cols < rows"
    then have "rows \<le> i div cols" by simp
    then have "rows * cols \<le> (i div cols) * cols"
      using assms(1) by (intro mult_right_mono) simp_all
    moreover have "(i div cols) * cols + i mod cols = i" by (rule div_mult_mod_eq)
    moreover have "0 \<le> i mod cols" using assms(1) by simp
    ultimately show False using assms(2) by linarith
  qed
  then have "i div cols \<le> rows - 1" by simp
  then have "(i div cols) * ch \<le> (rows - 1) * ch"
    using assms(4) by (rule mult_right_mono)
  then show ?thesis using assms(3) by (simp add: algebra_simps)
qed

text \<open>
  C3, counterexample. Five images of 40 x 40 in a grid of 2 rows and 2 columns: the canvas
  is 80 x 80 and the fifth image is placed at top offset 80, so it ends at 120, past the
  canvas height.
\<close>

theorem grid_overflow_counterexample:
  "POST_canvas (Some (Text ''grid'')) 2 2
     [\<lparr>width = 40, height = 40\<rparr>, \<lparr>width = 40, height = 40\<rparr>, \<lparr>width = 40, height = 40\<rparr>,
      \<lparr>width = 40, height = 40\<rparr>, \<lparr>width = 40, height = 40\<rparr>] =
     \<lparr>canvasWidth = Num 80, canvasHeight = Num 80\<rparr>
   \<and> POST_compositeOps (Some (Text ''grid'')) 2 2
     [\<lparr>width = 40, height = 40\<rparr>, \<lparr>width = 40, height = 40\<rparr>, \<lparr>width = 40, height = 40\<rparr>,
      \<lparr>width = 40, height = 40\<rparr>, \<lparr>width = 40, height = 40\<rparr>] ! 4 =
     \<lparr>op_input = \<lparr>width = 40, height = 40\<rparr>, op_left = Num 0, op_top = Num 80\<rparr>
   \<and> \<not> fits_canvas
       (POST_canvas (Some (Text ''grid'')) 2 2
         [\<lparr>width = 40, height = 40\<rparr>, \<lparr>width = 40, height = 40\<rparr>, \<lparr>width = 40, height = 40\<rparr>,
          \<lparr>width = 40, height = 40\<rparr>, \<lparr>width = 40, height = 40\<rparr>])
       (POST_compositeOps (Some (Text ''grid'')) 2 2
         [\<lparr>width = 40, height = 40\<rparr>, \<lparr>width = 40, height = 40\<rparr>, \<lparr>width = 40, height = 40\<rparr>,
          \<lparr>width = 40, height = 40\<rparr>, \<lparr>width = 40, height = 40\<rparr>] ! 4)"
  by code_simp

text \<open>
  C3, amended. For every non-empty batch of images with positive dimensions, in horizontal
  mode, in vertical mode, and in grid mode with positive rows and columns and at most
  rows times columns images, every placed image's left offset plus its width does not
  exceed the canvas width and its top offset plus its height does not exceed the canvas
  height.
\<close>

theorem placements_fit_canvas:
  assumes nonempty: "imgs \<noteq> []"
    and positive: "\<forall>d \<in> set imgs. 0 < width d \<and> 0 < height d"
    and mode: "m = ''horizontal'' \<or> m = ''vertical''
               \<or> (m = ''grid'' \<and> 0 < rows \<and> 0 < cols \<and> int (length imgs) \<le> rows * cols)"
  shows "\<forall>p \<in> set (POST_compositeOps (Some (Text m)) rows cols imgs).
           fits_canvas (POST_canvas (Some (Text m)) rows cols imgs) p"
proof
  fix p
  assume "p \<in> set (POST_compositeOps (Some (Text m)) rows cols imgs)"
  then obtain i where i: "i < length (POST_compositeOps (Some (Text m)) rows cols imgs)"
    and p: "p = POST_compositeOps (Some (Text m)) rows cols imgs ! i"
    by (auto simp: in_set_conv_nth)
  have w0: "\<forall>d \<in> set imgs. 0 \<le> width d" and h0: "\<forall>d \<in> set imgs. 0 \<le> height d"
    using positive by (auto intro: less_imp_le)
  from mode consider (h) "m = ''horizontal''" | (v) "m = ''vertical''"
    | (g) "m = ''grid''" "0 < rows" "0 < cols" "int (length imgs) \<le> rows * cols"
    by blast
  then show "fits_canvas (POST_canvas (Some (Text m)) rows cols imgs) p"
  proof cases
    case h
    with i have il: "i < length imgs"
      by (simp add: POST_compositeOps_def length_horizontal_ops)
    show ?thesis
      using h il p nonempty running_offset_fits [OF w0 il] nth_le_Max [OF il, of height]
      by (simp add: fits_canvas_def POST_canvas_def POST_compositeOps_def reduce_plus
          Math_max_Max nth_horizontal_ops)
  next
    case v
    with i have il: "i < length imgs"
      by (simp add: POST_compositeOps_def length_vertical_ops)
    show ?thesis
      using v il p nonempty running_offset_fits [OF h0 il] nth_le_Max [OF il, of width]
      by (simp add: fits_canvas_def POST_canvas_def POST_compositeOps_def reduce_plus
          Math_max_Max nth_vertical_ops)
  next
    case g
    with i have il: "i < length imgs"
      by (simp add: POST_compositeOps_def length_grid_ops)
    have wpos: "0 \<le> Max (width ` set imgs)"
      using nth_le_Max [OF il, of width] w0 il by (meson nth_mem order_trans)
    have hpos: "0 \<le> Max (height ` set imgs)"
      using nth_le_Max [OF il, of height] h0 il by (meson nth_mem order_trans)
    have lt: "int i < rows * cols" using il g(4) by simp
    show ?thesis
      using g il p nonempty
        grid_col_fits [OF g(3) nth_le_Max [OF il, of width] wpos, of "int i"]
        grid_row_fits [OF g(3) lt nth_le_Max [OF il, of height] hpos]
      by (simp add: fits_canvas_def POST_canvas_def POST_compositeOps_def
          Math_max_Max nth_grid_ops js_rem_pos js_floor_div_nonzero)
  qed
qed

theorem placements_fit_canvas_witness:
  "fits_canvas
     (POST_canvas (Some (Text ''grid'')) 2 2
        [\<lparr>width = 40, height = 30\<rparr>, \<lparr>width = 20, height = 40\<rparr>, \<lparr>width = 40, height = 40\<rparr>])
     (POST_compositeOps (Some (Text ''grid'')) 2 2
        [\<lparr>width = 40, height = 30\<rparr>, \<lparr>width = 20, height = 40\<rparr>, \<lparr>width = 40, height = 40\<rparr>] ! 2)"
proof -
  let ?imgs = "[\<lparr>width = 40, height = 30\<rparr>, \<lparr>width = 20, height = 40\<rparr>, \<lparr>width = 40, height = 40\<rparr>]"
  have ne: "?imgs \<noteq> []" by simp
  have pos: "\<forall>d \<in> set ?imgs. 0 < width d \<and> 0 < height d" by simp
  have mode: "''grid'' = ''horizontal'' \<or> ''grid'' = ''vertical''
               \<or> (''grid'' = ''grid'' \<and> (0::int) < 2 \<and> (0::int) < 2 \<and> int (length ?imgs) \<le> 2 * 2)"
    by simp
  have len: "length (POST_compositeOps (Some (Text ''grid'')) 2 2 ?imgs) = 3"
    by (simp add: POST_compositeOps_def Let_def)
  have "POST_compositeOps (Some (Text ''grid'')) 2 2 ?imgs ! 2
          \<in> set (POST_compositeOps (Some (Text ''grid'')) 2 2 ?imgs)"
    by (rule nth_mem) (simp add: len)
  with placements_fit_canvas [OF ne pos mode] show ?thesis by blast
qed

section \<open>Empty requests and positive canvases\<close>

lemma sum_list_pos:
  fixes f :: "'a \<Rightarrow> int"
  assumes "xs \<noteq> []" and "\<forall>x \<in> set xs. 0 < f x"
  shows "0 < sum_list (map f xs)"
  using assms
proof (induction xs)
  case Nil
  then show ?case by simp
next
  case (Cons x xs)
  have "0 \<le> sum_list (map f xs)"
    using Cons.prems(2) by (intro sum_list_nonneg) (auto intro: less_imp_le)
  moreover have "0 < f x" using Cons.prems(2) by simp
  ultimately show ?case by simp
qed

lemma Max_pos:
  fixes f :: "'a \<Rightarrow> int"
  assumes "xs \<noteq> []" and "\<forall>x \<in> set xs. 0 < f x"
  shows "0 < Max (f ` set xs)"
proof -
  from assms(1) obtain y ys where "xs = y # ys" by (cases xs) auto
  then have "0 < f y" and "f y \<le> Max (f ` set xs)"
    using assms(2) by (auto intro: Max_ge)
  then show ?thesis by linarith
qed

text \<open>
  C7, counterexample. A request in grid mode with \<open>gridCols\<close> "-1" and one image of
  40 x 40: the image set is not empty and the image has positive dimensions, yet the
  canvas width the handler computes and passes to the image library is -40.
\<close>

theorem negative_cols_counterexample:
  "POST [(''alignmentMode'', Text ''grid''), (''gridCols'', Text ''-1''),
         (''image-0'', FileVal \<lparr>stored = \<lparr>width = 40, height = 40\<rparr>, orientation = 1\<rparr>)] =
     ([ReadMetadata 0, ProcessImage 0,
       CreateCanvas \<lparr>canvasWidth = Num (- 40), canvasHeight = Num 80\<rparr>],
      Json 500 ''Failed to merge images'')"
  by code_simp

text \<open>
  C7, amended. A request whose image set is empty is answered with status 400 and the
  error "No images provided" before any call into the image library. For every non-empty
  list of images with positive dimensions, in horizontal mode, in vertical mode, and in
  grid mode with positive rows and columns, the computed canvas width and height are
  positive integers.
\<close>

theorem empty_rejected_canvas_positive:
  "(collect_files formData = [] \<longrightarrow> POST formData = ([], Json 400 ''No images provided''))
   \<and> (imgs \<noteq> [] \<and> (\<forall>d \<in> set imgs. 0 < width d \<and> 0 < height d)
        \<and> (m = ''horizontal'' \<or> m = ''vertical'' \<or> (m = ''grid'' \<and> 0 < rows \<and> 0 < cols))
      \<longrightarrow> (\<exists>w h. POST_canvas (Some (Text m)) rows cols imgs =
                   \<lparr>canvasWidth = Num w, canvasHeight = Num h\<rparr> \<and> 0 < w \<and> 0 < h))"
proof (intro conjI impI)
  assume "collect_files formData = []"
  then show "POST formData = ([], Json 400 ''No images provided'')"
    by (simp add: POST_def Let_def)
next
  assume a: "imgs \<noteq> [] \<and> (\<forall>d \<in> set imgs. 0 < width d \<and> 0 < height d)
        \<and> (m = ''horizontal'' \<or> m = ''vertical'' \<or> (m = ''grid'' \<and> 0 < rows \<and> 0 < cols))"
  then have ne: "imgs \<noteq> []" and w: "\<forall>d \<in> set imgs. 0 < width d"
    and h: "\<forall>d \<in> set imgs. 0 < height d" by auto
  note sw = sum_list_pos [OF ne w] and sh = sum_list_pos [OF ne h]
    and mw = Max_pos [OF ne w] and mh = Max_pos [OF ne h]
  from a consider "m = ''horizontal''" | "m = ''vertical''"
    | "m = ''grid''" "0 < rows" "0 < cols" by blast
  then show "\<exists>w h. POST_canvas (Some (Text m)) rows cols imgs =
                   \<lparr>canvasWidth = Num w, canvasHeight = Num h\<rparr> \<and> 0 < w \<and> 0 < h"
  proof cases
    case 1
    then show ?thesis using ne sw mh
      by (simp add: POST_canvas_def reduce_plus Math_max_Max)
  next
    case 2
    then show ?thesis using ne sh mw
      by (simp add: POST_canvas_def reduce_plus Math_max_Max)
  next
    case 3
    then show ?thesis using ne mw mh
      by (simp add: POST_canvas_def Math_max_Max)
  qed
qed

theorem empty_rejected_canvas_positive_witness:
  "POST [(''alignmentMode'', Text ''grid''), (''gridRows'', Text ''3'')] =
     ([], Json 400 ''No images provided'')
   \<and> (\<exists>w h. POST_canvas (Some (Text ''grid'')) 2 3 [\<lparr>width = 40, height = 30\<rparr>] =
         \<lparr>canvasWidth = Num w, canvasHeight = Num h\<rparr> \<and> 0 < w \<and> 0 < h)"
proof -
  have "collect_files [(''alignmentMode'', Text ''grid''), (''gridRows'', Text ''3'')] = []"
    by simp
  moreover have "[\<lparr>width = 40, height = 30\<rparr>] \<noteq> []
      \<and> (\<forall>d \<in> set [\<lparr>width = 40, height = 30\<rparr>]. 0 < width d \<and> 0 < height d)
      \<and> (''grid'' = ''horizontal'' \<or> ''grid'' = ''vertical''
          \<or> (''grid'' = ''grid'' \<and> (0::int) < 2 \<and> (0::int) < 3))"
    by simp
  ultimately show ?thesis
    using empty_rejected_canvas_positive
      [of "[(''alignmentMode'', Text ''grid''), (''gridRows'', Text ''3'')]"
          "[\<lparr>width = 40, height = 30\<rparr>]" "''grid''" 2 3]
    by blast
qed

section \<open>Results of the image library\<close>

lemma those_map_None:
  assumes "x \<in> set xs" and "f x = None"
  shows "those (map f xs) = None"
  using assms by (induction xs) (auto split: option.splits)

lemma those_map_Some:
  assumes "those (map f xs) = Some ys"
  shows "length ys = length xs \<and> (\<forall>i < length xs. f (xs ! i) = Some (ys ! i))"
  using assms
proof (induction xs arbitrary: ys)
  case Nil
  then show ?case by simp
next
  case (Cons x xs)
  from Cons.prems obtain y zs where y: "f x = Some y" and zs: "those (map f xs) = Some zs"
    and ys: "ys = y # zs"
    by (auto split: option.splits)
  from Cons.IH [OF zs] y ys show ?case
    by (auto simp: nth_Cons split: nat.splits)
qed

lemma scaled_pos: "0 < scaled free target natural"
  by (simp add: scaled_def)

lemma resize_arg_Some: "resize_arg a = Some (Some n) \<Longrightarrow> a = Some (Num n) \<and> 0 < n"
  by (cases a rule: resize_arg.cases) (auto split: if_splits)

lemma resize_arg_nonpos: "n \<le> 0 \<Longrightarrow> resize_arg (Some (Num n)) = None"
  by simp

lemma fit_inside_pos:
  assumes "0 < width d" "0 < height d"
    and "\<forall>n. w = Some n \<longrightarrow> 0 < n" "\<forall>n. h = Some n \<longrightarrow> 0 < n"
  shows "0 < width (fit_inside w h e d) \<and> 0 < height (fit_inside w h e d)"
  using assms by (cases "(w, h, e, d)" rule: fit_inside.cases) (auto simp: scaled_pos)

lemma resize_result_pos:
  assumes "resize_result w h e d = Some r" "0 < width d" "0 < height d"
  shows "0 < width r \<and> 0 < height r"
proof -
  from assms(1) obtain w' h' where w': "resize_arg w = Some w'" and h': "resize_arg h = Some h'"
    and r: "r = fit_inside w' h' e d"
    by (auto simp: resize_result_def split: option.splits)
  have "\<forall>n. w' = Some n \<longrightarrow> 0 < n" "\<forall>n. h' = Some n \<longrightarrow> 0 < n"
    using w' h' by (auto dest: resize_arg_Some)
  from fit_inside_pos [OF assms(2,3) this] r show ?thesis by simp
qed

lemma oriented_pos:
  assumes "decodable u"
  shows "0 < width (oriented u) \<and> 0 < height (oriented u)"
  using assms by (simp add: decodable_def oriented_def)

lemma pipeline_of_calls:
  "pipe_input (sharp b) = b"
  "pipe_queued (sharp b) = []"
  "pipe_input (sharp_rotate p) = pipe_input p"
  "pipe_queued (sharp_rotate p) = pipe_queued p @ [AutoOrient]"
  "pipe_input (sharp_resize w h e p) = pipe_input p"
  "pipe_queued (sharp_resize w h e p) = pipe_queued p @ [Resize w h e]"
  "pipe_input (sharp_png p) = pipe_input p"
  "pipe_queued (sharp_png p) = pipe_queued p @ [ToPng]"
  by (simp_all add: sharp_def sharp_rotate_def sharp_resize_def sharp_png_def)

lemma first_pass_eq: "first_pass u = (if decodable u then Some (stored u) else None)"
  by (simp add: first_pass_def sharp_metadata_def pipeline_of_calls)

lemma rendered_metadata:
  assumes "0 < width d" "0 < height d"
  shows "sharp_metadata (sharp \<lparr>stored = d, orientation = k\<rparr>) = Some d"
  using assms by (simp add: sharp_metadata_def pipeline_of_calls decodable_def)

lemma process_image_plain:
  assumes "decodable u" and "resize_call rw rh tw th = None"
  shows "process_image rw rh tw th u = Some (oriented u)"
  using assms oriented_pos [OF assms(1)]
  by (simp add: process_image_def sharp_toBuffer_def pipeline_of_calls rendered_metadata)

lemma process_image_resized:
  assumes "decodable u" and "resize_call rw rh tw th = Some (w, h, e)"
  shows "process_image rw rh tw th u = resize_result w h e (oriented u)"
proof (cases "resize_result w h e (oriented u)")
  case None
  with assms show ?thesis
    by (simp add: process_image_def sharp_toBuffer_def pipeline_of_calls)
next
  case (Some d)
  from resize_result_pos [OF Some] oriented_pos [OF assms(1)]
  have "0 < width d" "0 < height d" by simp_all
  with assms Some show ?thesis
    by (simp add: process_image_def sharp_toBuffer_def pipeline_of_calls rendered_metadata)
qed

lemma process_image_undecodable:
  assumes "\<not> decodable u"
  shows "process_image rw rh tw th u = None"
proof (cases "resize_call rw rh tw th")
  case None
  with assms show ?thesis
    by (simp add: process_image_def sharp_toBuffer_def pipeline_of_calls)
next
  case (Some c)
  obtain w h e where "c = (w, h, e)" by (cases c)
  with Some assms show ?thesis
    by (simp add: process_image_def sharp_toBuffer_def pipeline_of_calls)
qed

lemma process_image_pos:
  assumes "process_image rw rh tw th u = Some r"
  shows "0 < width r \<and> 0 < height r"
proof -
  have d: "decodable u"
    using assms process_image_undecodable [of u rw rh tw th] by (cases "decodable u") simp_all
  show ?thesis
  proof (cases "resize_call rw rh tw th")
    case None
    with assms process_image_plain [OF d None] oriented_pos [OF d] show ?thesis by simp
  next
    case (Some c)
    obtain w h e where c: "c = (w, h, e)" by (cases c)
    from assms process_image_resized [OF d Some [unfolded c]]
    have "resize_result w h e (oriented u) = Some r" by simp
    from resize_result_pos [OF this] oriented_pos [OF d] show ?thesis by simp
  qed
qed

lemma those_process_pos:
  assumes "those (map (process_image rw rh tw th) files) = Some ps" and "files \<noteq> []"
  shows "ps \<noteq> [] \<and> (\<forall>d \<in> set ps. 0 < width d \<and> 0 < height d)"
proof -
  note s = those_map_Some [OF assms(1)]
  have "ps \<noteq> []" using s assms(2) by auto
  moreover have "\<forall>d \<in> set ps. 0 < width d \<and> 0 < height d"
  proof
    fix d
    assume "d \<in> set ps"
    then obtain i where "i < length ps" "d = ps ! i" by (auto simp: in_set_conv_nth)
    with s have "process_image rw rh tw th (files ! i) = Some d" by simp
    then show "0 < width d \<and> 0 < height d" by (rule process_image_pos)
  qed
  ultimately show ?thesis by simp
qed

lemma processed_pos:
  assumes "processed_images formData = Some ps" and "collect_files formData \<noteq> []"
  shows "ps \<noteq> [] \<and> (\<forall>d \<in> set ps. 0 < width d \<and> 0 < height d)"
proof -
  from assms(1) obtain ds where
    "those (map (process_image (formData_get formData ''resizeWidth'')
       (formData_get formData ''resizeHeight'')
       (fst (alignment_targets (formData_get formData ''alignDimension'') ds))
       (snd (alignment_targets (formData_get formData ''alignDimension'') ds)))
      (collect_files formData)) = Some ps"
    by (auto simp: processed_images_def Let_def case_prod_beta split: option.splits)
  then show ?thesis using assms(2) by (rule those_process_pos)
qed

lemma explicit_call:
  assumes "truthy_field rw \<or> truthy_field rh"
  shows "resize_call rw rh tw th = Some (requested rw, requested rh, True)"
  using assms by (simp add: resize_call_def Let_def)

lemma process_image_bad_resize:
  assumes "(\<exists>n \<le> 0. requested rw = Some (Num n)) \<or> (\<exists>n \<le> 0. requested rh = Some (Num n))"
  shows "process_image rw rh tw th b = None"
proof (cases "decodable b")
  case False
  then show ?thesis by (rule process_image_undecodable)
next
  case True
  from assms have t: "truthy_field rw \<or> truthy_field rh"
    by (auto simp: requested_def split: if_splits)
  from assms have "resize_result (requested rw) (requested rh) True (oriented b) = None"
    by (auto simp: resize_result_def split: option.splits)
  with process_image_resized [OF True explicit_call [OF t]] show ?thesis by simp
qed

lemma processed_images_bad_resize:
  assumes files: "collect_files formData \<noteq> []"
    and bad: "(\<exists>n \<le> 0. requested (formData_get formData ''resizeWidth'') = Some (Num n))
         \<or> (\<exists>n \<le> 0. requested (formData_get formData ''resizeHeight'') = Some (Num n))"
  shows "processed_images formData = None"
proof (cases "those (map first_pass (collect_files formData))")
  case None
  then show ?thesis by (simp add: processed_images_def Let_def)
next
  case (Some ds)
  let ?p = "process_image (formData_get formData ''resizeWidth'')
           (formData_get formData ''resizeHeight'')
           (fst (alignment_targets (formData_get formData ''alignDimension'') ds))
           (snd (alignment_targets (formData_get formData ''alignDimension'') ds))"
  from files obtain b where b: "b \<in> set (collect_files formData)"
    by (cases "collect_files formData") auto
  have "?p b = None" by (rule process_image_bad_resize [OF bad])
  then have "those (map ?p (collect_files formData)) = None"
    by (rule those_map_None [OF b])
  with Some show ?thesis by (simp add: processed_images_def Let_def case_prod_beta)
qed

lemma negative_grid_canvas:
  assumes "ps \<noteq> []" "\<forall>d \<in> set ps. 0 < width d \<and> 0 < height d" "rows < 0 \<or> cols < 0"
  shows "\<not> sharp_create_ok (canvasWidth (POST_canvas (Some (Text ''grid'')) rows cols ps))
                            (canvasHeight (POST_canvas (Some (Text ''grid'')) rows cols ps))"
proof -
  have w: "0 < Max (width ` set ps)" and h: "0 < Max (height ` set ps)"
    using assms(1,2) by (auto intro!: Max_pos)
  have "Max (width ` set ps) * cols < 0 \<or> Max (height ` set ps) * rows < 0"
    using assms(3) w h by (auto simp: mult_pos_neg)
  then show ?thesis using assms(1)
    by (auto simp: POST_canvas_def Math_max_Max Let_def)
qed

section \<open>The cases of the handler\<close>

lemma POST_empty:
  assumes "collect_files formData = []"
  shows "POST formData = ([], Json 400 ''No images provided'')"
  using assms by (simp add: POST_def Let_def)

lemma POST_failure:
  assumes "collect_files formData \<noteq> []" and "processed_images formData = None"
  shows "POST formData =
    (map ReadMetadata [0..<length (collect_files formData)], Json 500 ''Failed to merge images'')"
  using assms by (simp add: POST_def Let_def)

lemma POST_processed:
  assumes "collect_files formData \<noteq> []"
    and "processed_images formData = Some ps"
    and "c = POST_canvas (formData_get formData ''alignmentMode'')
           (effective_grid formData ''gridRows'') (effective_grid formData ''gridCols'') ps"
    and "ops = POST_compositeOps (formData_get formData ''alignmentMode'')
           (effective_grid formData ''gridRows'') (effective_grid formData ''gridCols'') ps"
    and "pass12 = map ReadMetadata [0..<length (collect_files formData)]
           @ map ProcessImage [0..<length (collect_files formData)]"
  shows "POST formData =
    (if \<not> sharp_create_ok (canvasWidth c) (canvasHeight c)
     then (pass12 @ [CreateCanvas c], Json 500 ''Failed to merge images'')
     else if \<not> sharp_composite_ok ops
     then (pass12 @ [CreateCanvas c, Composite ops], Json 500 ''Failed to merge images'')
     else (pass12 @ [CreateCanvas c, Composite ops, EncodePng], Png c ops))"
  unfolding POST_def Let_def assms(3,4,5)
  using assms(1,2) by simp

lemma POST_nonempty:
  assumes "collect_files formData \<noteq> []"
  shows "(\<forall>msg. snd (POST formData) \<noteq> Json 400 msg)
    \<and> take (length (collect_files formData)) (fst (POST formData)) =
        map ReadMetadata [0..<length (collect_files formData)]"
proof (cases "processed_images formData")
  case None
  show ?thesis by (simp add: POST_failure [OF assms None])
next
  case (Some ps)
  show ?thesis by (simp add: POST_processed [OF assms Some refl refl refl])
qed

lemma POST_bad_resize:
  assumes files: "collect_files formData \<noteq> []"
    and bad: "(\<exists>n \<le> 0. requested (formData_get formData ''resizeWidth'') = Some (Num n))
         \<or> (\<exists>n \<le> 0. requested (formData_get formData ''resizeHeight'') = Some (Num n))"
  shows "snd (POST formData) = Json 500 ''Failed to merge images''"
  by (simp add: POST_failure [OF files processed_images_bad_resize [OF files bad]])

lemma POST_negative_grid:
  assumes files: "collect_files formData \<noteq> []"
    and g: "formData_get formData ''alignmentMode'' = Some (Text ''grid'')"
    and neg: "effective_grid formData ''gridRows'' < 0 \<or> effective_grid formData ''gridCols'' < 0"
  shows "snd (POST formData) = Json 500 ''Failed to merge images''"
proof (cases "processed_images formData")
  case None
  show ?thesis by (simp add: POST_failure [OF files None])
next
  case (Some ps)
  from processed_pos [OF Some files]
  have ne: "ps \<noteq> []" and pos: "\<forall>d \<in> set ps. 0 < width d \<and> 0 < height d" by simp_all
  have "\<not> sharp_create_ok
        (canvasWidth (POST_canvas (Some (Text ''grid'')) (effective_grid formData ''gridRows'')
           (effective_grid formData ''gridCols'') ps))
        (canvasHeight (POST_canvas (Some (Text ''grid'')) (effective_grid formData ''gridRows'')
           (effective_grid formData ''gridCols'') ps))"
    by (rule negative_grid_canvas [OF ne pos neg])
  then show ?thesis by (simp add: POST_processed [OF files Some refl refl refl] g)
qed

section \<open>Parameters that are not validated\<close>

text \<open>
  C8, counterexample. A request in grid mode with \<open>gridRows\<close> "0" and one image of 40 x 40
  does not fail: 2 rows are used and the merged image of 80 x 80 is returned.
\<close>

theorem zero_rows_counterexample:
  "POST [(''alignmentMode'', Text ''grid''), (''gridRows'', Text ''0''),
         (''image-0'', FileVal \<lparr>stored = \<lparr>width = 40, height = 40\<rparr>, orientation = 1\<rparr>)] =
     ([ReadMetadata 0, ProcessImage 0,
       CreateCanvas \<lparr>canvasWidth = Num 80, canvasHeight = Num 80\<rparr>,
       Composite [\<lparr>op_input = \<lparr>width = 40, height = 40\<rparr>, op_left = Num 0, op_top = Num 0\<rparr>],
       EncodePng],
      Png \<lparr>canvasWidth = Num 80, canvasHeight = Num 80\<rparr>
        [\<lparr>op_input = \<lparr>width = 40, height = 40\<rparr>, op_left = Num 0, op_top = Num 0\<rparr>])"
  by code_simp

text \<open>
  C8, amended. For every request with a non-empty image set: the response never has status
  400, and the first pass has read the metadata of every image before anything else
  happens; a \<open>gridRows\<close> or \<open>gridCols\<close> that parses to 0 is replaced by 2; a non-positive
  explicit resize width or height, and in grid mode a negative number of rows or columns,
  end in the response with status 500 and the error "Failed to merge images".
\<close>

theorem parameters_not_validated:
  assumes files: "collect_files formData \<noteq> []"
  shows "(\<forall>msg. snd (POST formData) \<noteq> Json 400 msg)
    \<and> take (length (collect_files formData)) (fst (POST formData)) =
        map ReadMetadata [0..<length (collect_files formData)]
    \<and> (parseInt (to_string (formData_get formData ''gridRows'')) = Some 0
         \<longrightarrow> effective_grid formData ''gridRows'' = 2)
    \<and> (parseInt (to_string (formData_get formData ''gridCols'')) = Some 0
         \<longrightarrow> effective_grid formData ''gridCols'' = 2)
    \<and> ((\<exists>n \<le> 0. requested (formData_get formData ''resizeWidth'') = Some (Num n))
         \<or> (\<exists>n \<le> 0. requested (formData_get formData ''resizeHeight'') = Some (Num n))
         \<longrightarrow> snd (POST formData) = Json 500 ''Failed to merge images'')
    \<and> (formData_get formData ''alignmentMode'' = Some (Text ''grid'')
         \<and> (effective_grid formData ''gridRows'' < 0 \<or> effective_grid formData ''gridCols'' < 0)
         \<longrightarrow> snd (POST formData) = Json 500 ''Failed to merge images'')"
proof (intro conjI impI)
  show "\<forall>msg. snd (POST formData) \<noteq> Json 400 msg"
    using POST_nonempty [OF files] by (rule conjunct1)
  show "take (length (collect_files formData)) (fst (POST formData)) =
        map ReadMetadata [0..<length (collect_files formData)]"
    using POST_nonempty [OF files] by (rule conjunct2)
  show "effective_grid formData ''gridRows'' = 2"
    if "parseInt (to_string (formData_get formData ''gridRows'')) = Some 0"
    using that by (simp add: effective_grid_def or_default_def)
  show "effective_grid formData ''gridCols'' = 2"
    if "parseInt (to_string (formData_get formData ''gridCols'')) = Some 0"
    using that by (simp add: effective_grid_def or_default_def)
  show "snd (POST formData) = Json 500 ''Failed to merge images''"
    if "(\<exists>n \<le> 0. requested (formData_get formData ''resizeWidth'') = Some (Num n))
         \<or> (\<exists>n \<le> 0. requested (formData_get formData ''resizeHeight'') = Some (Num n))"
    using files that by (rule POST_bad_resize)
  show "snd (POST formData) = Json 500 ''Failed to merge images''"
    if "formData_get formData ''alignmentMode'' = Some (Text ''grid'')
         \<and> (effective_grid formData ''gridRows'' < 0 \<or> effective_grid formData ''gridCols'' < 0)"
    using that POST_negative_grid [OF files] by blast
qed

theorem parameters_not_validated_witness:
  "collect_files [(''alignmentMode'', Text ''grid''), (''gridCols'', Text ''-1''),
                  (''image-0'', FileVal \<lparr>stored = \<lparr>width = 40, height = 40\<rparr>, orientation = 1\<rparr>)] \<noteq> []
   \<and> effective_grid [(''alignmentMode'', Text ''grid''), (''gridCols'', Text ''-1''),
                  (''image-0'', FileVal \<lparr>stored = \<lparr>width = 40, height = 40\<rparr>, orientation = 1\<rparr>)] ''gridCols'' = - 1
   \<and> snd (POST [(''alignmentMode'', Text ''grid''), (''gridCols'', Text ''-1''),
                 (''image-0'', FileVal \<lparr>stored = \<lparr>width = 40, height = 40\<rparr>, orientation = 1\<rparr>)]) =
       Json 500 ''Failed to merge images''
   \<and> take 1 (fst (POST [(''alignmentMode'', Text ''grid''), (''gridCols'', Text ''-1''),
                 (''image-0'', FileVal \<lparr>stored = \<lparr>width = 40, height = 40\<rparr>, orientation = 1\<rparr>)])) = [ReadMetadata 0]
   \<and> requested (formData_get [(''alignmentMode'', Text ''horizontal''), (''resizeWidth'', Text ''0''),
                 (''image-0'', FileVal \<lparr>stored = \<lparr>width = 40, height = 40\<rparr>, orientation = 1\<rparr>)] ''resizeWidth'') = Some (Num 0)
   \<and> snd (POST [(''alignmentMode'', Text ''horizontal''), (''resizeWidth'', Text ''0''),
                 (''image-0'', FileVal \<lparr>stored = \<lparr>width = 40, height = 40\<rparr>, orientation = 1\<rparr>)]) =
       Json 500 ''Failed to merge images''"
proof -
  let ?fd = "[(''alignmentMode'', Text ''grid''), (''gridCols'', Text ''-1''),
              (''image-0'', FileVal \<lparr>stored = \<lparr>width = 40, height = 40\<rparr>, orientation = 1\<rparr>)]"
  let ?fd2 = "[(''alignmentMode'', Text ''horizontal''), (''resizeWidth'', Text ''0''),
              (''image-0'', FileVal \<lparr>stored = \<lparr>width = 40, height = 40\<rparr>, orientation = 1\<rparr>)]"
  have files: "collect_files ?fd \<noteq> []" by (simp add: startsWith_def)
  have len: "length (collect_files ?fd) = 1" by (simp add: startsWith_def)
  have mode: "formData_get ?fd ''alignmentMode'' = Some (Text ''grid'')" by simp
  have cols: "effective_grid ?fd ''gridCols'' = - 1" by code_simp
  have files2: "collect_files ?fd2 \<noteq> []" by (simp add: startsWith_def)
  have zero: "requested (formData_get ?fd2 ''resizeWidth'') = Some (Num 0)" by code_simp
  then have "\<exists>n \<le> 0. requested (formData_get ?fd2 ''resizeWidth'') = Some (Num n)" by simp
  with parameters_not_validated [OF files2]
  have "snd (POST ?fd2) = Json 500 ''Failed to merge images''" by blast
  with parameters_not_validated [OF files] mode cols len files zero show ?thesis by simp
qed

section \<open>Rounding\<close>

lemma round_div_bounds:
  assumes "0 < b"
  shows "2 * (round_div a b * b - a) \<le> b \<and> 2 * (a - round_div a b * b) < b"
proof -
  define q where "q = (2 * a + b) div (2 * b)"
  define r where "r = (2 * a + b) mod (2 * b)"
  have "q * (2 * b) + r = 2 * a + b"
    unfolding q_def r_def by (rule div_mult_mod_eq)
  moreover have "0 \<le> r" and "r < 2 * b"
    using assms by (simp_all add: r_def)
  ultimately have "2 * (q * b - a) \<le> b \<and> 2 * (a - q * b) < b"
    by (simp add: algebra_simps)
  then show ?thesis by (simp add: round_div_def q_def)
qed


lemma round_div_nonneg:
  assumes "0 < b" and "0 \<le> a"
  shows "0 \<le> round_div a b"
  using assms by (simp add: round_div_def pos_imp_zdiv_nonneg_iff)


lemma scaled_ratio:
  assumes "0 < natural" and "0 \<le> free * target"
  shows "\<bar>scaled free target natural * natural - free * target\<bar> \<le> natural"
proof (cases "1 \<le> round_div (free * target) natural")
  case True
  then have "scaled free target natural = round_div (free * target) natural"
    by (simp add: scaled_def)
  with round_div_bounds [OF assms(1), of "free * target"] assms(1) show ?thesis
    by (simp add: abs_le_iff)
next
  case False
  with round_div_nonneg [OF assms] have z: "round_div (free * target) natural = 0" by simp
  then have "scaled free target natural = 1" by (simp add: scaled_def)
  with round_div_bounds [OF assms(1), of "free * target"] z assms show ?thesis
    by (simp add: abs_le_iff)
qed

section \<open>Explicit resize\<close>












section \<open>Alignment to the largest width or height\<close>

lemma first_pass_all:
  assumes "\<forall>u \<in> set files. decodable u"
  shows "those (map first_pass files) = Some (map stored files)"
  using assms by (induction files) (simp_all add: first_pass_eq)

lemma align_width_process:
  assumes "\<not> truthy_field rw" "\<not> truthy_field rh" and "decodable u" and "0 < M"
  shows "process_image rw rh (Some (Num M)) None u =
           Some \<lparr>width = M, height = scaled (height (oriented u)) M (width (oriented u))\<rparr>"
proof -
  have "resize_call rw rh (Some (Num M)) None = Some (Some (Num M), None, False)"
    using assms by (simp add: resize_call_def)
  from process_image_resized [OF assms(3) this] assms(4) show ?thesis
    by (simp add: resize_result_def)
qed

lemma align_height_process:
  assumes "\<not> truthy_field rw" "\<not> truthy_field rh" and "decodable u" and "0 < M"
  shows "process_image rw rh None (Some (Num M)) u =
           Some \<lparr>width = scaled (width (oriented u)) M (height (oriented u)), height = M\<rparr>"
proof -
  have "resize_call rw rh None (Some (Num M)) = Some (None, Some (Num M), False)"
    using assms by (simp add: resize_call_def)
  from process_image_resized [OF assms(3) this] assms(4) show ?thesis
    by (simp add: resize_result_def)
qed

text \<open>
  What the alignment to the width does for every batch: the target is the maximum of the
  widths that the first pass reads, which are the stored ones; every image is resized to
  exactly that width, and its height is within one pixel of the proportional value of
  its natural size.
\<close>

lemma aligned_to_first_pass_maximum:
  assumes ne: "files \<noteq> []"
    and dec: "\<forall>u \<in> set files. decodable u"
    and no_explicit: "\<not> truthy_field rw" "\<not> truthy_field rh"
  shows "\<exists>M. those (map first_pass files) = Some (map stored files)
    \<and> alignment_targets (Some (Text ''width'')) (map stored files) = (Some (Num M), None)
    \<and> M = Max ((\<lambda>u. width (stored u)) ` set files)
    \<and> (\<forall>u \<in> set files. \<exists>r.
          process_image rw rh (Some (Num M)) None u = Some r
          \<and> width r = M
          \<and> \<bar>height r * width (oriented u) - height (oriented u) * width r\<bar>
              \<le> width (oriented u))"
proof -
  let ?M = "Max ((\<lambda>u. width (stored u)) ` set files)"
  have w: "\<forall>u \<in> set files. 0 < width (stored u)"
    using dec by (simp add: decodable_def)
  have m: "0 < ?M" by (rule Max_pos [OF ne w])
  have ne': "map stored files \<noteq> []" using ne by simp
  have t: "alignment_targets (Some (Text ''width'')) (map stored files) = (Some (Num ?M), None)"
    using Math_max_Max [OF ne', of width]
    by (simp add: alignment_targets_def image_image)
  have a: "\<exists>r. process_image rw rh (Some (Num ?M)) None u = Some r
          \<and> width r = ?M
          \<and> \<bar>height r * width (oriented u) - height (oriented u) * width r\<bar>
              \<le> width (oriented u)"
    if "u \<in> set files" for u
  proof -
    from that dec have d: "decodable u" by simp
    note pos = oriented_pos [OF d]
    then have "0 \<le> height (oriented u) * ?M" using m by simp
    from scaled_ratio [OF conjunct1 [OF pos] this] align_width_process [OF no_explicit d m]
    show ?thesis by simp
  qed
  from first_pass_all [OF dec] t a show ?thesis by blast
qed

text \<open>
  C6, failing input. A batch of two uploads aligned to the width: a file stored as
  100 x 50 with orientation tag 6, whose natural size after rotation is 50 x 100, and a
  file of 60 x 60 without a tag. The first pass reads the stored widths 100 and 60, so
  the target width is 100, while the maximum natural width is 60; the images are resized
  to 100 x 200 and 100 x 100.
\<close>

theorem alignment_target_on_rotated_upload:
  "map oriented [\<lparr>stored = \<lparr>width = 100, height = 50\<rparr>, orientation = 6\<rparr>,
                 \<lparr>stored = \<lparr>width = 60, height = 60\<rparr>, orientation = 1\<rparr>] =
     [\<lparr>width = 50, height = 100\<rparr>, \<lparr>width = 60, height = 60\<rparr>]
   \<and> Math_max (map width [\<lparr>width = 50, height = 100\<rparr>, \<lparr>width = 60, height = 60\<rparr>]) = Num 60
   \<and> those (map first_pass [\<lparr>stored = \<lparr>width = 100, height = 50\<rparr>, orientation = 6\<rparr>,
                             \<lparr>stored = \<lparr>width = 60, height = 60\<rparr>, orientation = 1\<rparr>]) =
       Some [\<lparr>width = 100, height = 50\<rparr>, \<lparr>width = 60, height = 60\<rparr>]
   \<and> alignment_targets (Some (Text ''width''))
       [\<lparr>width = 100, height = 50\<rparr>, \<lparr>width = 60, height = 60\<rparr>] = (Some (Num 100), None)
   \<and> processed_images
       [(''alignmentMode'', Text ''vertical''), (''alignDimension'', Text ''width''),
        (''image-0'', FileVal \<lparr>stored = \<lparr>width = 100, height = 50\<rparr>, orientation = 6\<rparr>),
        (''image-1'', FileVal \<lparr>stored = \<lparr>width = 60, height = 60\<rparr>, orientation = 1\<rparr>)] =
       Some [\<lparr>width = 100, height = 200\<rparr>, \<lparr>width = 100, height = 100\<rparr>]"
  by code_simp

section \<open>Orientation and the two passes\<close>

text \<open>
  The second pass reads the dimensions of the rendered buffer: without a resize they are
  the natural dimensions of the upload, after rotation.
\<close>

lemma second_pass_reads_rotated:
  assumes "decodable u" and "\<not> truthy_field rw" "\<not> truthy_field rh"
  shows "process_image rw rh None None u = Some (oriented u)"
  using assms by (intro process_image_plain) (simp_all add: resize_call_def)

text \<open>
  C9, failing input. A file stored as 100 x 50 with orientation tag 6 has the natural size
  50 x 100. The first pass, \<open>metadata()\<close> on the pipeline with the rotation queued, reads
  100 x 50, the dimensions before rotation; the second pass reads 50 x 100. In a vertical
  merge aligned to the width together with a file of 60 x 60, the alignment target is
  therefore 100 and the canvas is 100 x 300.
\<close>

theorem first_pass_on_rotated_upload:
  "oriented \<lparr>stored = \<lparr>width = 100, height = 50\<rparr>, orientation = 6\<rparr> =
     \<lparr>width = 50, height = 100\<rparr>
   \<and> first_pass \<lparr>stored = \<lparr>width = 100, height = 50\<rparr>, orientation = 6\<rparr> =
       Some \<lparr>width = 100, height = 50\<rparr>
   \<and> process_image None None None None \<lparr>stored = \<lparr>width = 100, height = 50\<rparr>, orientation = 6\<rparr> =
       Some \<lparr>width = 50, height = 100\<rparr>
   \<and> POST [(''alignmentMode'', Text ''vertical''), (''alignDimension'', Text ''width''),
            (''image-0'', FileVal \<lparr>stored = \<lparr>width = 100, height = 50\<rparr>, orientation = 6\<rparr>),
            (''image-1'', FileVal \<lparr>stored = \<lparr>width = 60, height = 60\<rparr>, orientation = 1\<rparr>)] =
       ([ReadMetadata 0, ReadMetadata 1, ProcessImage 0, ProcessImage 1,
         CreateCanvas \<lparr>canvasWidth = Num 100, canvasHeight = Num 300\<rparr>,
         Composite
           [\<lparr>op_input = \<lparr>width = 100, height = 200\<rparr>, op_left = Num 0, op_top = Num 0\<rparr>,
            \<lparr>op_input = \<lparr>width = 100, height = 100\<rparr>, op_left = Num 0, op_top = Num 200\<rparr>],
         EncodePng],
        Png \<lparr>canvasWidth = Num 100, canvasHeight = Num 300\<rparr>
          [\<lparr>op_input = \<lparr>width = 100, height = 200\<rparr>, op_left = Num 0, op_top = Num 0\<rparr>,
           \<lparr>op_input = \<lparr>width = 100, height = 100\<rparr>, op_left = Num 0, op_top = Num 200\<rparr>])"
  by code_simp

section \<open>Defaults of the grid parameters\<close>

lemma parseInt_null: "parseInt ''null'' = None"
  by code_simp

lemma effective_grid_value:
  assumes "((formData_get formData name = None
             \<or> parseInt (to_string (formData_get formData name)) = None
             \<or> parseInt (to_string (formData_get formData name)) = Some 0) \<and> R = 2)
           \<or> (\<exists>n. n \<noteq> 0 \<and> parseInt (to_string (formData_get formData name)) = Some n \<and> R = n)"
  shows "effective_grid formData name = R"
  using assms by (auto simp: effective_grid_def or_default_def parseInt_null)

lemma grid_ops_integer:
  assumes "cols \<noteq> 0"
  shows "sharp_composite_ok (grid_ops cols (Num cw) (Num ch) k imgs)"
  using assms
  by (induction imgs arbitrary: k)
    (simp_all add: sharp_composite_ok_def js_rem_def js_floor_div_def Let_def)

lemma POST_grid:
  assumes grid: "formData_get formData ''alignmentMode'' = Some (Text ''grid'')"
    and files: "collect_files formData \<noteq> []"
    and ps: "processed_images formData = Some ps"
    and rows: "effective_grid formData ''gridRows'' = R"
    and cols: "effective_grid formData ''gridCols'' = C"
    and c: "c = \<lparr>canvasWidth = Num (Max (width ` set ps) * C),
                 canvasHeight = Num (Max (height ` set ps) * R)\<rparr>"
  shows "CreateCanvas c \<in> set (fst (POST formData))"
    and "0 < R \<and> 0 < C \<longrightarrow>
           snd (POST formData) = Png c (POST_compositeOps (Some (Text ''grid'')) R C ps)"
proof -
  from processed_pos [OF ps files]
  have ne: "ps \<noteq> []" and pos: "\<forall>d \<in> set ps. 0 < width d \<and> 0 < height d" by simp_all
  have cv: "POST_canvas (Some (Text ''grid'')) R C ps = c"
    using ne by (simp add: POST_canvas_def Math_max_Max c)
  note P = POST_processed [OF files ps refl refl refl, unfolded grid rows cols cv]
  show "CreateCanvas c \<in> set (fst (POST formData))"
    by (simp add: P)
  show "0 < R \<and> 0 < C \<longrightarrow>
           snd (POST formData) = Png c (POST_compositeOps (Some (Text ''grid'')) R C ps)"
  proof
    assume rc: "0 < R \<and> 0 < C"
    have w: "0 < Max (width ` set ps)" and h: "0 < Max (height ` set ps)"
      using ne pos by (auto intro!: Max_pos)
    have ok: "sharp_create_ok (canvasWidth c) (canvasHeight c)"
      using rc w h by (simp add: c)
    have "sharp_composite_ok (POST_compositeOps (Some (Text ''grid'')) R C ps)"
      using rc ne by (simp add: POST_compositeOps_def Math_max_Max grid_ops_integer)
    with ok show "snd (POST formData) = Png c (POST_compositeOps (Some (Text ''grid'')) R C ps)"
      by (simp add: P)
  qed
qed

text \<open>
  C10. For every request in grid mode with a non-empty image set whose two passes succeed:
  with the number of rows taken as 2 when the \<open>gridRows\<close> field is absent, when
  \<open>parseInt\<close> of it is \<open>NaN\<close> or when it parses to 0, and as the parsed value otherwise,
  also when that is negative, and the number of columns likewise from \<open>gridCols\<close>, the
  handler never answers with status 400, it creates the canvas of cell width times that
  number of columns by cell height times that number of rows, it returns the merged
  image of that size when both numbers are positive, and it answers with status 500 when
  one of them is negative.
\<close>

theorem grid_parameter_default:
  assumes grid: "formData_get formData ''alignmentMode'' = Some (Text ''grid'')"
    and files: "collect_files formData \<noteq> []"
    and ps: "processed_images formData = Some ps"
    and rows: "((formData_get formData ''gridRows'' = None
                 \<or> parseInt (to_string (formData_get formData ''gridRows'')) = None
                 \<or> parseInt (to_string (formData_get formData ''gridRows'')) = Some 0) \<and> R = 2)
               \<or> (\<exists>n. n \<noteq> 0 \<and> parseInt (to_string (formData_get formData ''gridRows'')) = Some n
                      \<and> R = n)"
    and cols: "((formData_get formData ''gridCols'' = None
                 \<or> parseInt (to_string (formData_get formData ''gridCols'')) = None
                 \<or> parseInt (to_string (formData_get formData ''gridCols'')) = Some 0) \<and> C = 2)
               \<or> (\<exists>n. n \<noteq> 0 \<and> parseInt (to_string (formData_get formData ''gridCols'')) = Some n
                      \<and> C = n)"
  shows "(\<forall>msg. snd (POST formData) \<noteq> Json 400 msg)
    \<and> CreateCanvas \<lparr>canvasWidth = Num (Max (width ` set ps) * C),
                     canvasHeight = Num (Max (height ` set ps) * R)\<rparr>
        \<in> set (fst (POST formData))
    \<and> (0 < R \<and> 0 < C \<longrightarrow>
         snd (POST formData) =
           Png \<lparr>canvasWidth = Num (Max (width ` set ps) * C),
                canvasHeight = Num (Max (height ` set ps) * R)\<rparr>
             (POST_compositeOps (Some (Text ''grid'')) R C ps))
    \<and> (R < 0 \<or> C < 0 \<longrightarrow> snd (POST formData) = Json 500 ''Failed to merge images'')"
proof -
  note r = effective_grid_value [OF rows] and c = effective_grid_value [OF cols]
  have "\<forall>msg. snd (POST formData) \<noteq> Json 400 msg"
    using POST_nonempty [OF files] by (rule conjunct1)
  moreover note POST_grid [OF grid files ps r c refl]
  moreover have "snd (POST formData) = Json 500 ''Failed to merge images''" if "R < 0 \<or> C < 0"
    using that POST_negative_grid [OF files grid] r c by simp
  ultimately show ?thesis by blast
qed

theorem grid_parameter_default_witness:
  "snd (POST [(''alignmentMode'', Text ''grid''), (''gridCols'', Text ''abc''),
              (''image-0'', FileVal \<lparr>stored = \<lparr>width = 40, height = 40\<rparr>, orientation = 1\<rparr>)]) =
     Png \<lparr>canvasWidth = Num 80, canvasHeight = Num 80\<rparr>
       (POST_compositeOps (Some (Text ''grid'')) 2 2 [\<lparr>width = 40, height = 40\<rparr>])
   \<and> CreateCanvas \<lparr>canvasWidth = Num (- 120), canvasHeight = Num 80\<rparr>
       \<in> set (fst (POST [(''alignmentMode'', Text ''grid''), (''gridRows'', Text ''0''),
                          (''gridCols'', Text ''-3''),
                          (''image-0'', FileVal \<lparr>stored = \<lparr>width = 40, height = 40\<rparr>,
                                                  orientation = 1\<rparr>)]))
   \<and> snd (POST [(''alignmentMode'', Text ''grid''), (''gridRows'', Text ''0''),
                (''gridCols'', Text ''-3''),
                (''image-0'', FileVal \<lparr>stored = \<lparr>width = 40, height = 40\<rparr>,
                                        orientation = 1\<rparr>)]) =
       Json 500 ''Failed to merge images''"
proof -
  let ?img = "(''image-0'', FileVal \<lparr>stored = \<lparr>width = 40, height = 40\<rparr>, orientation = 1\<rparr>)"
  let ?fd = "[(''alignmentMode'', Text ''grid''), (''gridCols'', Text ''abc''), ?img]"
  let ?fd2 = "[(''alignmentMode'', Text ''grid''), (''gridRows'', Text ''0''),
               (''gridCols'', Text ''-3''), ?img]"
  let ?ps = "[\<lparr>width = 40, height = 40\<rparr>]"
  have m: "Max (width ` set ?ps) = 40" "Max (height ` set ?ps) = 40" by simp_all
  have grid: "formData_get ?fd ''alignmentMode'' = Some (Text ''grid'')" by simp
  have files: "collect_files ?fd \<noteq> []" by (simp add: startsWith_def)
  have ps: "processed_images ?fd = Some ?ps" by code_simp
  have rows: "((formData_get ?fd ''gridRows'' = None
                 \<or> parseInt (to_string (formData_get ?fd ''gridRows'')) = None
                 \<or> parseInt (to_string (formData_get ?fd ''gridRows'')) = Some 0) \<and> (2::int) = 2)
               \<or> (\<exists>n. n \<noteq> 0 \<and> parseInt (to_string (formData_get ?fd ''gridRows'')) = Some n
                      \<and> 2 = n)"
    by simp
  have "parseInt (to_string (formData_get ?fd ''gridCols'')) = None" by code_simp
  then have cols: "((formData_get ?fd ''gridCols'' = None
                 \<or> parseInt (to_string (formData_get ?fd ''gridCols'')) = None
                 \<or> parseInt (to_string (formData_get ?fd ''gridCols'')) = Some 0) \<and> (2::int) = 2)
               \<or> (\<exists>n. n \<noteq> 0 \<and> parseInt (to_string (formData_get ?fd ''gridCols'')) = Some n
                      \<and> 2 = n)"
    by blast
  have grid2: "formData_get ?fd2 ''alignmentMode'' = Some (Text ''grid'')" by simp
  have files2: "collect_files ?fd2 \<noteq> []" by (simp add: startsWith_def)
  have ps2: "processed_images ?fd2 = Some ?ps" by code_simp
  have "parseInt (to_string (formData_get ?fd2 ''gridRows'')) = Some 0" by code_simp
  then have rows2: "((formData_get ?fd2 ''gridRows'' = None
                 \<or> parseInt (to_string (formData_get ?fd2 ''gridRows'')) = None
                 \<or> parseInt (to_string (formData_get ?fd2 ''gridRows'')) = Some 0) \<and> (2::int) = 2)
               \<or> (\<exists>n. n \<noteq> 0 \<and> parseInt (to_string (formData_get ?fd2 ''gridRows'')) = Some n
                      \<and> 2 = n)"
    by blast
  have "parseInt (to_string (formData_get ?fd2 ''gridCols'')) = Some (- 3)" by code_simp
  then have cols2: "((formData_get ?fd2 ''gridCols'' = None
                 \<or> parseInt (to_string (formData_get ?fd2 ''gridCols'')) = None
                 \<or> parseInt (to_string (formData_get ?fd2 ''gridCols'')) = Some 0) \<and> (- 3::int) = 2)
               \<or> (\<exists>n. n \<noteq> 0 \<and> parseInt (to_string (formData_get ?fd2 ''gridCols'')) = Some n
                      \<and> - 3 = n)"
    by simp
  from grid_parameter_default [OF grid files ps rows cols]
  have 1: "snd (POST ?fd) = Png \<lparr>canvasWidth = Num 80, canvasHeight = Num 80\<rparr>
       (POST_compositeOps (Some (Text ''grid'')) 2 2 ?ps)"
    by (simp add: m)
  from grid_parameter_default [OF grid2 files2 ps2 rows2 cols2]
  have 2: "CreateCanvas \<lparr>canvasWidth = Num (- 120), canvasHeight = Num 80\<rparr> \<in> set (fst (POST ?fd2))"
    and 3: "snd (POST ?fd2) = Json 500 ''Failed to merge images''"
    by (simp_all add: m)
  from 1 2 3 show ?thesis by blast
qed

end
